theory Spec2Isabelle
  imports Complex_Main "HOL-Library.Log_Nat"
begin

section \<open>KillerCubes.cpp: the marble shooting game\<close>

text \<open>
  The program keeps its whole state in globals: a pool of three marbles, a grid of two
  rows of five blocks with one damage state each, the game-over text and the current
  phase. It is embedded here with explicit state passing: every function of the source
  takes the globals as a record and returns them updated.

  Coordinates are \<open>float\<close> in the source. The models belong to the engine, which keeps
  and moves them; the embedding keeps their coordinates as reals standing for those floats.
  \<open>CheckCollision\<close>, which takes any two models, does its arithmetic in single
  precision, with every operation rounded as the hardware rounds it. The positions that
  \<open>SetupScene\<close> and \<open>RestartGame\<close> compute for the blocks are small integers, on
  which the float operations are exact (\<open>block_position_exact\<close> below); they are written
  with the operations of the reals.
\<close>

subsection \<open>Constants and enums\<close>

definition kNumBlocksPerRow :: nat where
  "kNumBlocksPerRow = 5"

definition kMaxMarbles :: nat where
  "kMaxMarbles = 3"

definition kMarbleSpeed :: real where
  "kMarbleSpeed = 1 / 2"

definition kBlockWidth :: real where
  "kBlockWidth = 2"

datatype GameState = MENU | GAME | OVER

datatype BlockState = NORMAL | HIT_ONCE | DEAD

subsection \<open>The engine's models\<close>

text \<open>
  Modelled from the spec: the model interface of the rendering engine (TL-Engine.h is an
  external library and not part of the sources). A model has a position, a visibility
  flag and a skin; \<open>CreateModel\<close> makes a visible model with the texture of its mesh
  (no skin set), \<open>SetPosition\<close>, \<open>SetVisible\<close> and \<open>SetSkin\<close> overwrite one
  attribute, \<open>MoveZ\<close> adds to the z coordinate, \<open>GetX\<close> and \<open>GetZ\<close> read a
  coordinate.
\<close>

record IModel =
  posX :: real
  posY :: real
  posZ :: real
  visible :: bool
  skin :: "string option"

definition CreateModel :: "real \<Rightarrow> real \<Rightarrow> real \<Rightarrow> IModel" where
  "CreateModel x y z = \<lparr>posX = x, posY = y, posZ = z, visible = True, skin = None\<rparr>"

definition SetPosition :: "real \<Rightarrow> real \<Rightarrow> real \<Rightarrow> IModel \<Rightarrow> IModel" where
  "SetPosition x y z m = m\<lparr>posX := x, posY := y, posZ := z\<rparr>"

definition SetVisible :: "bool \<Rightarrow> IModel \<Rightarrow> IModel" where
  "SetVisible v m = m\<lparr>visible := v\<rparr>"

definition SetSkin :: "string \<Rightarrow> IModel \<Rightarrow> IModel" where
  "SetSkin name m = m\<lparr>skin := Some name\<rparr>"

definition MoveZ :: "real \<Rightarrow> IModel \<Rightarrow> IModel" where
  "MoveZ d m = m\<lparr>posZ := posZ m + d\<rparr>"

definition GetX :: "IModel \<Rightarrow> real" where
  "GetX m = posX m"

definition GetZ :: "IModel \<Rightarrow> real" where
  "GetZ m = posZ m"

subsection \<open>The globals\<close>

record Marble =
  model :: IModel
  active :: bool

text \<open>
  The arrays \<open>marbles[kMaxMarbles]\<close>, \<open>blocks[2][kNumBlocksPerRow]\<close> and
  \<open>blockStates[2][kNumBlocksPerRow]\<close> are lists and lists of rows; \<open>wf\<close> below
  states their sizes. The loops of the source only use indices inside these sizes.
  \<open>gameOverText\<close> is the visibility of the text, \<open>running\<close> is what
  \<open>engine->IsRunning()\<close> answers.
\<close>

record game =
  marbles :: "Marble list"
  blocks :: "IModel list list"
  blockStates :: "BlockState list list"
  gameOverText :: bool
  currentState :: GameState
  running :: bool

definition wf :: "game \<Rightarrow> bool" where
  "wf s \<longleftrightarrow>
     length (marbles s) = kMaxMarbles \<and>
     map length (blocks s) = replicate 2 kNumBlocksPerRow \<and>
     map length (blockStates s) = replicate 2 kNumBlocksPerRow"

text \<open>
  What \<open>engine->KeyHit\<close> answers in one frame for the three keys the game polls.
\<close>

record keys =
  Key_Space :: bool
  Key_0 :: bool
  Key_Escape :: bool

text \<open>Writing one cell of an array, as \<open>marbles[i].f = ...\<close> and \<open>a[row][j] = ...\<close> do.\<close>

definition marble_upd :: "nat \<Rightarrow> (Marble \<Rightarrow> Marble) \<Rightarrow> game \<Rightarrow> game" where
  "marble_upd i f s = s\<lparr>marbles := (marbles s)[i := f (marbles s ! i)]\<rparr>"

definition block_upd :: "nat \<Rightarrow> nat \<Rightarrow> (IModel \<Rightarrow> IModel) \<Rightarrow> game \<Rightarrow> game" where
  "block_upd row j f s =
     s\<lparr>blocks := (blocks s)[row := (blocks s ! row)[j := f (blocks s ! row ! j)]]\<rparr>"

definition blockState_set :: "nat \<Rightarrow> nat \<Rightarrow> BlockState \<Rightarrow> game \<Rightarrow> game" where
  "blockState_set row j v s =
     s\<lparr>blockStates := (blockStates s)[row := (blockStates s ! row)[j := v]]\<rparr>"

subsection \<open>SetupScene\<close>

text \<open>
  The scene after \<open>SetupScene\<close>: the two loops fill the arrays cell by cell, the phase
  is the initial value \<open>MENU\<close> of the global, the engine runs.
\<close>

definition SetupScene :: game where
  "SetupScene =
     \<lparr>marbles = map (\<lambda>i. \<lparr>model = SetVisible False (CreateModel 0 0 0), active = False\<rparr>)
                  [0..<kMaxMarbles],
      blocks = map (\<lambda>row. map (\<lambda>i. CreateModel (real i * kBlockWidth - 5) 0
                                        (real row * 5 + 10)) [0..<kNumBlocksPerRow]) [0..<2],
      blockStates = map (\<lambda>row. map (\<lambda>i. NORMAL) [0..<kNumBlocksPerRow]) [0..<2],
      gameOverText = False,
      currentState = MENU,
      running = True\<rparr>"

subsection \<open>RestartGame\<close>

definition RestartGame_marble :: "nat \<Rightarrow> game \<Rightarrow> game" where
  "RestartGame_marble i s =
     (let s1 = marble_upd i (\<lambda>m. m\<lparr>active := False\<rparr>) s;
          s2 = marble_upd i (\<lambda>m. m\<lparr>model := SetVisible False (model m)\<rparr>) s1
      in marble_upd i (\<lambda>m. m\<lparr>model := SetPosition 0 0 0 (model m)\<rparr>) s2)"

definition RestartGame_block :: "nat \<Rightarrow> nat \<Rightarrow> game \<Rightarrow> game" where
  "RestartGame_block row i s =
     (let s1 = block_upd row i (SetPosition (real i * kBlockWidth - 5) 0 (real row * 5 + 10)) s;
          s2 = block_upd row i (SetSkin ''default.jpg'') s1;
          s3 = block_upd row i (SetVisible True) s2
      in blockState_set row i NORMAL s3)"

definition RestartGame :: "game \<Rightarrow> game" where
  "RestartGame s =
     (let s1 = fold RestartGame_marble [0..<kMaxMarbles] s;
          s2 = fold (\<lambda>row. fold (RestartGame_block row) [0..<kNumBlocksPerRow]) [0..<2] s1
      in s2\<lparr>gameOverText := False, currentState := GAME\<rparr>)"

subsection \<open>ShootMarble\<close>

text \<open>The scan of the pool from slot \<open>i\<close> on; it stops at the first inactive slot.\<close>

function ShootMarble_from :: "nat \<Rightarrow> game \<Rightarrow> game" where
  "ShootMarble_from i s =
     (if i < kMaxMarbles then
        (if \<not> active (marbles s ! i) then
           (let s1 = marble_upd i (\<lambda>m. m\<lparr>model := SetPosition 0 0 0 (model m)\<rparr>) s;
                s2 = marble_upd i (\<lambda>m. m\<lparr>model := SetVisible True (model m)\<rparr>) s1
            in marble_upd i (\<lambda>m. m\<lparr>active := True\<rparr>) s2)
         else ShootMarble_from (i + 1) s)
      else s)"
  by pat_completeness auto
termination
  by (relation "measure (\<lambda>(i, s). kMaxMarbles - i)") auto

declare ShootMarble_from.simps [simp del]

definition ShootMarble :: "game \<Rightarrow> game" where
  "ShootMarble s = ShootMarble_from 0 s"

subsection \<open>Single-precision arithmetic\<close>

text \<open>
  The values of the type \<open>float\<close> (IEEE 754 binary32): the finite ones, given by the real
  they stand for, the two infinities and the result of an invalid operation. The two zeros
  are one value here; nothing below tells them apart.
\<close>

datatype float32 = Finite real | PInf | NInf | NaN

text \<open>The nearest integer, the even one of two that are equally near.\<close>

definition roundeven :: "real \<Rightarrow> int" where
  "roundeven y =
     (let n = \<lfloor>y\<rfloor>; d = y - real_of_int n
      in if d < 1 / 2 then n else if 1 / 2 < d then n + 1 else if even n then n else n + 1)"

text \<open>
  Rounding a real to the nearest float, ties to even, the rounding mode a program runs in
  unless it changes it. Every finite float is a multiple of \<open>1 / 2 ^ 149\<close>, so the
  magnitude is counted in that unit: \<open>y\<close>. A float has 24 significant bits: when
  \<open>y\<close> has \<open>b\<close> bits before the point, the floats near it are \<open>2 ^ (b - 24)\<close>
  units apart, and one unit apart when \<open>b\<close> is at most 24 (the subnormal range and the
  first binade above it). A result of \<open>2 ^ 128\<close> or more, that is \<open>2 ^ 277\<close> units, is
  beyond the largest float and becomes an infinity.
\<close>

definition fl :: "real \<Rightarrow> float32" where
  "fl x =
     (let y = \<bar>x\<bar> * 2 ^ 149;
          q = 2 ^ nat (bitlen \<lfloor>y\<rfloor> - 24);
          n = roundeven (y / real_of_int q) * q
      in if 2 ^ 277 \<le> n then (if x < 0 then NInf else PInf)
         else Finite (sgn x * real_of_int n / 2 ^ 149))"

text \<open>
  The operations \<open>-\<close>, \<open>+\<close>, \<open>*\<close> and \<open><\<close> on floats: the exact result of finite
  operands, rounded; the usual table for the infinities and for invalid operations.
\<close>

fun fneg :: "float32 \<Rightarrow> float32" where
  "fneg (Finite a) = Finite (- a)"
| "fneg PInf = NInf"
| "fneg NInf = PInf"
| "fneg NaN = NaN"

fun fadd :: "float32 \<Rightarrow> float32 \<Rightarrow> float32" where
  "fadd (Finite a) (Finite b) = fl (a + b)"
| "fadd NaN _ = NaN"
| "fadd _ NaN = NaN"
| "fadd PInf NInf = NaN"
| "fadd NInf PInf = NaN"
| "fadd PInf _ = PInf"
| "fadd _ PInf = PInf"
| "fadd NInf _ = NInf"
| "fadd _ NInf = NInf"

definition fsub :: "float32 \<Rightarrow> float32 \<Rightarrow> float32" where
  "fsub a b = fadd a (fneg b)"

definition fsign :: "float32 \<Rightarrow> real" where
  "fsign a = (case a of Finite x \<Rightarrow> sgn x | PInf \<Rightarrow> 1 | NInf \<Rightarrow> - 1 | NaN \<Rightarrow> 0)"

fun fmul :: "float32 \<Rightarrow> float32 \<Rightarrow> float32" where
  "fmul (Finite a) (Finite b) = fl (a * b)"
| "fmul NaN _ = NaN"
| "fmul _ NaN = NaN"
| "fmul a b =
     (if fsign a * fsign b = 0 then NaN else if 0 < fsign a * fsign b then PInf else NInf)"

fun fless :: "float32 \<Rightarrow> float32 \<Rightarrow> bool" where
  "fless (Finite a) (Finite b) \<longleftrightarrow> a < b"
| "fless NaN _ \<longleftrightarrow> False"
| "fless _ NaN \<longleftrightarrow> False"
| "fless _ NInf \<longleftrightarrow> False"
| "fless NInf _ \<longleftrightarrow> True"
| "fless PInf _ \<longleftrightarrow> False"
| "fless _ PInf \<longleftrightarrow> True"

subsection \<open>CheckCollision\<close>

text \<open>
  What \<open>GetX\<close> and \<open>GetZ\<close> answer and the radius are floats: the reals that stand
  for them enter the arithmetic as they are. Every \<open>-\<close>, \<open>*\<close> and \<open>+\<close> of the
  source is one float operation, rounded to single precision before the next one reads it,
  as the type \<open>float\<close> of each local variable and operand says: \<open>dx\<close>, \<open>dz\<close>,
  the two squares, their sum \<open>distanceSq\<close>, \<open>threshold\<close> and its square.
\<close>

definition CheckCollision :: "IModel \<Rightarrow> IModel \<Rightarrow> real \<Rightarrow> bool" where
  "CheckCollision m1 m2 radius =
     (let dx = fsub (Finite (GetX m1)) (Finite (GetX m2));
          dz = fsub (Finite (GetZ m1)) (Finite (GetZ m2));
          distanceSq = fadd (fmul dx dx) (fmul dz dz);
          threshold = fmul (Finite radius) (Finite 2)
      in fless distanceSq (fmul threshold threshold))"

subsection \<open>UpdateGame\<close>

text \<open>
  The body of the two block loops for marble \<open>i\<close> and block \<open>(row, j)\<close>; the call
  of \<open>CheckCollision\<close> takes the default radius 1. Nothing leaves the loops after a
  hit: they go on to the next block with the same marble.
\<close>

definition collideBlock :: "nat \<Rightarrow> nat \<Rightarrow> nat \<Rightarrow> game \<Rightarrow> game" where
  "collideBlock i row j s =
     (if blockStates s ! row ! j \<noteq> DEAD \<and>
         CheckCollision (model (marbles s ! i)) (blocks s ! row ! j) 1
      then
        (let s1 = marble_upd i (\<lambda>m. m\<lparr>active := False\<rparr>) s;
             s2 = marble_upd i (\<lambda>m. m\<lparr>model := SetVisible False (model m)\<rparr>) s1
         in if blockStates s2 ! row ! j = NORMAL then
              blockState_set row j HIT_ONCE (block_upd row j (SetSkin ''red.jpg'') s2)
            else if blockStates s2 ! row ! j = HIT_ONCE then
              block_upd row j (SetVisible False) (blockState_set row j DEAD s2)
            else s2)
      else s)"

definition collideBlocks :: "nat \<Rightarrow> game \<Rightarrow> game" where
  "collideBlocks i s =
     fold (\<lambda>row. fold (collideBlock i row) [0..<kNumBlocksPerRow]) [0..<2] s"

text \<open>The body of the marble loop: move, out-of-bounds rule (with its \<open>continue\<close>),
  block loops.\<close>

definition updateMarble :: "nat \<Rightarrow> game \<Rightarrow> game" where
  "updateMarble i s =
     (if active (marbles s ! i) then
        (let s1 = marble_upd i (\<lambda>m. m\<lparr>model := MoveZ kMarbleSpeed (model m)\<rparr>) s
         in if GetZ (model (marbles s1 ! i)) > 30 then
              (let s2 = marble_upd i (\<lambda>m. m\<lparr>active := False\<rparr>) s1
               in marble_upd i (\<lambda>m. m\<lparr>model := SetVisible False (model m)\<rparr>) s2)
            else collideBlocks i s1)
      else s)"

definition updateMarbles :: "game \<Rightarrow> game" where
  "updateMarbles s = fold updateMarble [0..<kMaxMarbles] s"

text \<open>The win check. The \<open>break\<close> leaves the inner loop only; the flag is never set
  back to true.\<close>

function allDead_row :: "nat \<Rightarrow> nat \<Rightarrow> game \<Rightarrow> bool \<Rightarrow> bool" where
  "allDead_row row j s allDead =
     (if j < kNumBlocksPerRow then
        (if blockStates s ! row ! j \<noteq> DEAD then False
         else allDead_row row (j + 1) s allDead)
      else allDead)"
  by pat_completeness auto
termination
  by (relation "measure (\<lambda>(row, j, s, a). kNumBlocksPerRow - j)") auto

declare allDead_row.simps [simp del]

definition allDead :: "game \<Rightarrow> bool" where
  "allDead s = fold (\<lambda>row a. allDead_row row 0 s a) [0..<2] True"

definition UpdateGame :: "keys \<Rightarrow> game \<Rightarrow> game" where
  "UpdateGame k s =
     (let s1 = (if Key_Space k then ShootMarble s else s);
          s2 = updateMarbles s1;
          s3 = (if Key_0 k then RestartGame s2 else s2)
      in if allDead s3 then s3\<lparr>currentState := OVER, gameOverText := True\<rparr> else s3)"

subsection \<open>Update and the main loop\<close>

definition Update :: "keys \<Rightarrow> game \<Rightarrow> game" where
  "Update k s =
     (case currentState s of
        MENU \<Rightarrow> (if Key_Space k then s\<lparr>currentState := GAME\<rparr> else s)
      | GAME \<Rightarrow> UpdateGame k s
      | OVER \<Rightarrow>
          (let s1 = (if Key_0 k then RestartGame s else s)
           in if Key_Escape k then s1\<lparr>running := False\<rparr> else s1))"

text \<open>
  The loop of \<open>main\<close> over the key answers of the coming frames, returning the state
  after each frame it runs; it ends when the engine no longer runs.
\<close>

fun main_loop :: "keys list \<Rightarrow> game \<Rightarrow> game list" where
  "main_loop [] s = []"
| "main_loop (k # ks) s =
     (if running s then (let s' = Update k s in s' # main_loop ks s') else [])"

text \<open>The states the program can be in at the start of a frame.\<close>

inductive reachable :: "game \<Rightarrow> bool" where
  reach_setup: "reachable SetupScene"
| reach_frame: "reachable s \<Longrightarrow> running s \<Longrightarrow> reachable (Update k s)"

section \<open>Notions used in the statements and proofs\<close>

text \<open>
  The coordinates \<open>n / 2 ^ e\<close> with \<open>n\<close> an integer of magnitude
  at most 512: for \<open>e = 1\<close> the multiples of 0.5 between -256 and 256.
\<close>

definition onGrid :: "nat \<Rightarrow> real \<Rightarrow> bool" where
  "onGrid e c \<longleftrightarrow> frac (2 ^ e * c) = 0 \<and> 2 ^ e * \<bar>c\<bar> \<le> 512"

text \<open>
  The number of active marbles in the pool.
\<close>

definition activeCount :: "game \<Rightarrow> nat" where
  "activeCount s = length (filter active (marbles s))"

text \<open>
  What \<open>ShootMarble\<close> does to the slot it takes, and what
  \<open>RestartGame\<close> does to a marble and to the block at \<open>(row,
  i)\<close>, each as one step.
\<close>

definition activate :: "Marble \<Rightarrow> Marble" where
  "activate m =
     m\<lparr>model := (model m)\<lparr>posX := 0, posY := 0, posZ := 0, visible := True\<rparr>,
       active := True\<rparr>"

definition resetMarble :: "Marble \<Rightarrow> Marble" where
  "resetMarble m = m\<lparr>active := False, model := SetPosition 0 0 0 (SetVisible False (model m))\<rparr>"

definition resetBlock :: "nat \<Rightarrow> nat \<Rightarrow> IModel \<Rightarrow> IModel" where
  "resetBlock row i b =
     SetVisible True (SetSkin ''default.jpg''
       (SetPosition (real i * kBlockWidth - 5) 0 (real row * 5 + 10) b))"

text \<open>
  One step of damage, on the state and on the model of the block; what a hit does to the
  marble; the condition of the \<open>if\<close> in the block loops.
\<close>

fun nextState :: "BlockState \<Rightarrow> BlockState" where
  "nextState NORMAL = HIT_ONCE"
| "nextState HIT_ONCE = DEAD"
| "nextState DEAD = DEAD"

fun damage :: "BlockState \<Rightarrow> IModel \<Rightarrow> IModel" where
  "damage NORMAL b = SetSkin ''red.jpg'' b"
| "damage HIT_ONCE b = SetVisible False b"
| "damage DEAD b = b"

definition deactivate :: "Marble \<Rightarrow> Marble" where
  "deactivate m = m\<lparr>active := False, model := SetVisible False (model m)\<rparr>"

definition hits :: "nat \<Rightarrow> nat \<Rightarrow> nat \<Rightarrow> game \<Rightarrow> bool" where
  "hits i row j s \<longleftrightarrow>
     blockStates s ! row ! j \<noteq> DEAD \<and>
     CheckCollision (model (marbles s ! i)) (blocks s ! row ! j) 1"

text \<open>
  The x and z coordinates of all marbles and blocks: all that the collision tests read
  of the models.
\<close>

definition geom :: "game \<Rightarrow> (real \<times> real) list \<times> (real \<times> real) list list" where
  "geom s = (map (\<lambda>m. (posX (model m), posZ (model m))) (marbles s),
             map (map (\<lambda>b. (posX b, posZ b))) (blocks s))"

text \<open>
  The collision test of marble \<open>i\<close> and block \<open>(row, j)\<close> in a
  state.
\<close>

definition collides :: "nat \<Rightarrow> nat \<Rightarrow> nat \<Rightarrow> game \<Rightarrow> bool" where
  "collides i row j s \<longleftrightarrow> CheckCollision (model (marbles s ! i)) (blocks s ! row ! j) 1"

text \<open>
  A block with its state; what a hit makes of it.
\<close>

definition cellOf :: "game \<Rightarrow> nat \<Rightarrow> nat \<Rightarrow> BlockState \<times> IModel" where
  "cellOf s r j = (blockStates s ! r ! j, blocks s ! r ! j)"

definition hitCell :: "BlockState \<times> IModel \<Rightarrow> BlockState \<times> IModel" where
  "hitCell cb = (nextState (fst cb), damage (fst cb) (snd cb))"

text \<open>
  The move of a marble in the marble loop, and whether marble \<open>i\<close>, active
  and still inside the bounds after its move, is then within range of block \<open>(r,
  k)\<close>.
\<close>

definition move :: "Marble \<Rightarrow> Marble" where
  "move m = m\<lparr>model := MoveZ kMarbleSpeed (model m)\<rparr>"

definition strikes :: "nat \<Rightarrow> nat \<Rightarrow> nat \<Rightarrow> game \<Rightarrow> bool" where
  "strikes i r k s \<longleftrightarrow>
     active (marbles s ! i) \<and> \<not> 30 < posZ (model (marbles s ! i)) + kMarbleSpeed \<and>
     CheckCollision (MoveZ kMarbleSpeed (model (marbles s ! i))) (blocks s ! r ! k) 1"

text \<open>
  Frames in which no key, only the space key, or only the restart key was hit.
\<close>

definition noKeys :: keys where
  "noKeys = \<lparr>Key_Space = False, Key_0 = False, Key_Escape = False\<rparr>"

definition spaceKey :: keys where
  "spaceKey = \<lparr>Key_Space = True, Key_0 = False, Key_Escape = False\<rparr>"

text \<open>
  Every marble is active exactly when it is visible; every DEAD block is invisible.
\<close>

definition activeVisible :: "game \<Rightarrow> bool" where
  "activeVisible s \<longleftrightarrow> list_all (\<lambda>m. active m \<longleftrightarrow> visible (model m)) (marbles s)"

definition deadHidden :: "game \<Rightarrow> bool" where
  "deadHidden s \<longleftrightarrow>
     (\<forall>r<2. \<forall>k<kNumBlocksPerRow. blockStates s ! r ! k = DEAD \<longrightarrow> \<not> visible (blocks s ! r ! k))"

text \<open>
  The position of a state on the way from NORMAL to DEAD.
\<close>

fun rank :: "BlockState \<Rightarrow> nat" where
  "rank NORMAL = 0"
| "rank HIT_ONCE = 1"
| "rank DEAD = 2"

text \<open>
  The state when the marble loop reaches a later marble, seen from the start of the
  loop: the blocks are where they were and the DEAD ones are still DEAD.
\<close>

definition later :: "game \<Rightarrow> game \<Rightarrow> bool" where
  "later s s' \<longleftrightarrow>
     wf s' \<and> snd (geom s') = snd (geom s) \<and>
     (\<forall>r<2. \<forall>k<kNumBlocksPerRow. blockStates s ! r ! k = DEAD \<longrightarrow> blockStates s' ! r ! k = DEAD)"

text \<open>
  How many marbles of the pool strike block \<open>(r, k)\<close> in the marble loop
  started in \<open>s\<close>.
\<close>

definition strikeCount :: "nat \<Rightarrow> nat \<Rightarrow> game \<Rightarrow> nat" where
  "strikeCount r k s = length (filter (\<lambda>i. strikes i r k s) [0..<kMaxMarbles])"

definition restartKey :: keys where
  "restartKey = \<lparr>Key_Space = False, Key_0 = True, Key_Escape = False\<rparr>"

text \<open>
  States for the examples: a marble in flight at height \<open>z\<close> of the lane, a
  free slot, and scenes built from the scene after setup.
\<close>

definition marbleAt :: "real \<Rightarrow> Marble" where
  "marbleAt z =
     \<lparr>model = \<lparr>posX = 0, posY = 0, posZ = z, visible = True, skin = None\<rparr>,
      active = True\<rparr>"

definition idleMarble :: Marble where
  "idleMarble =
     \<lparr>model = \<lparr>posX = 0, posY = 0, posZ = 0, visible = False, skin = None\<rparr>,
      active = False\<rparr>"

definition twoMarblesInRange :: game where
  "twoMarblesInRange =
     SetupScene\<lparr>marbles := [marbleAt 8, marbleAt (17 / 2), idleMarble],
                 blockStates := [[DEAD, DEAD, NORMAL, DEAD, DEAD], [DEAD, DEAD, DEAD, DEAD, DEAD]],
                 currentState := GAME\<rparr>"

definition oneMarbleInRange :: game where
  "oneMarbleInRange =
     SetupScene\<lparr>marbles := [marbleAt 8, idleMarble, idleMarble],
                 blockStates := [[DEAD, DEAD, NORMAL, DEAD, DEAD], [DEAD, DEAD, DEAD, DEAD, DEAD]],
                 currentState := GAME\<rparr>"

definition allBlocksDead :: game where
  "allBlocksDead =
     SetupScene\<lparr>blockStates := [[DEAD, DEAD, DEAD, DEAD, DEAD], [DEAD, DEAD, DEAD, DEAD, DEAD]],
                 currentState := GAME\<rparr>"

definition marbleAtEnd :: game where
  "marbleAtEnd =
     SetupScene\<lparr>marbles := [marbleAt 30, marbleAt 2, idleMarble], currentState := GAME\<rparr>"

text \<open>
  The game state without what is only shown: the skins of the models and the game-over
  text. Two states are the same game state when they agree on all the rest: phase,
  engine flag, position, active flag and visibility of every marble, position,
  visibility and state of every block.
\<close>

definition plainModel :: "IModel \<Rightarrow> IModel" where
  "plainModel b = b\<lparr>skin := None\<rparr>"

definition plainMarble :: "Marble \<Rightarrow> Marble" where
  "plainMarble m = m\<lparr>model := plainModel (model m)\<rparr>"

definition observe :: "game \<Rightarrow> game" where
  "observe s = s\<lparr>marbles := map plainMarble (marbles s),
                 blocks := map (map plainModel) (blocks s),
                 gameOverText := False\<rparr>"

definition same :: "game \<Rightarrow> game \<Rightarrow> bool" where
  "same s s' \<longleftrightarrow> wf s \<and> wf s' \<and> observe s = observe s'"

definition redScene :: game where
  "redScene = SetupScene\<lparr>blocks := map (map (SetSkin ''red.jpg'')) (blocks SetupScene),
                          gameOverText := True\<rparr>"

text \<open>
  A marble is on its lane: at x = 0, at a multiple of 0.5 between 0 and 30.5 in z, and
  at 30 at most while it is active. A state is in place when every marble is on its lane
  and the blocks are where \<open>SetupScene\<close> put them.
\<close>

definition onLane :: "Marble \<Rightarrow> bool" where
  "onLane m \<longleftrightarrow>
     posX (model m) = 0 \<and> frac (2 * posZ (model m)) = 0 \<and> 0 \<le> posZ (model m) \<and>
     posZ (model m) \<le> 61 / 2 \<and> (active m \<longrightarrow> posZ (model m) \<le> 30)"

definition inPlace :: "game \<Rightarrow> bool" where
  "inPlace s \<longleftrightarrow> list_all onLane (marbles s) \<and> snd (geom s) = snd (geom SetupScene)"

section \<open>Basic facts\<close>

subsection \<open>Loops and array cells\<close>

lemma fold_invariant:
  "P s \<Longrightarrow> (\<And>x s'. x \<in> set xs \<Longrightarrow> P s' \<Longrightarrow> P (f x s')) \<Longrightarrow> P (fold f xs s)"
  by (induction xs arbitrary: s) auto

lemma map_update_same: "f v = f (xs ! i) \<Longrightarrow> map f (xs[i := v]) = map f xs"
  by (induction xs arbitrary: i) (auto split: nat.split)

lemma map_update_same2:
  "f v = f (xss ! r ! j) \<Longrightarrow> map (map f) (xss[r := (xss ! r)[j := v]]) = map (map f) xss"
  by (rule map_update_same) (rule map_update_same)

lemma marble_upd_simps [simp]:
  "marbles (marble_upd i f s) = (marbles s)[i := f (marbles s ! i)]"
  "blocks (marble_upd i f s) = blocks s"
  "blockStates (marble_upd i f s) = blockStates s"
  "gameOverText (marble_upd i f s) = gameOverText s"
  "currentState (marble_upd i f s) = currentState s"
  "running (marble_upd i f s) = running s"
  by (simp_all add: marble_upd_def)

lemma block_upd_simps [simp]:
  "marbles (block_upd row j f s) = marbles s"
  "blocks (block_upd row j f s) = (blocks s)[row := (blocks s ! row)[j := f (blocks s ! row ! j)]]"
  "blockStates (block_upd row j f s) = blockStates s"
  "gameOverText (block_upd row j f s) = gameOverText s"
  "currentState (block_upd row j f s) = currentState s"
  "running (block_upd row j f s) = running s"
  by (simp_all add: block_upd_def)

lemma blockState_set_simps [simp]:
  "marbles (blockState_set row j v s) = marbles s"
  "blocks (blockState_set row j v s) = blocks s"
  "blockStates (blockState_set row j v s) = (blockStates s)[row := (blockStates s ! row)[j := v]]"
  "gameOverText (blockState_set row j v s) = gameOverText s"
  "currentState (blockState_set row j v s) = currentState s"
  "running (blockState_set row j v s) = running s"
  by (simp_all add: blockState_set_def)

lemma wf_marble_upd [simp]: "wf (marble_upd i f s) = wf s"
  by (simp add: wf_def)

lemma wf_block_upd [simp]: "wf (block_upd row j f s) = wf s"
  by (simp add: wf_def map_update_same)

lemma wf_blockState_set [simp]: "wf (blockState_set row j v s) = wf s"
  by (simp add: wf_def map_update_same)

lemma wf_fields [simp]:
  "wf (s\<lparr>currentState := p\<rparr>) = wf s"
  "wf (s\<lparr>gameOverText := g\<rparr>) = wf s"
  "wf (s\<lparr>running := r\<rparr>) = wf s"
  by (simp_all add: wf_def)

lemma wf_SetupScene: "wf SetupScene"
  by (simp add: wf_def SetupScene_def kMaxMarbles_def kNumBlocksPerRow_def eval_nat_numeral)

lemma wf_RestartGame_marble: "wf (RestartGame_marble i s) = wf s"
  by (simp add: RestartGame_marble_def Let_def)

lemma wf_RestartGame_block: "wf (RestartGame_block row i s) = wf s"
  by (simp add: RestartGame_block_def Let_def)

lemma wf_RestartGame: "wf s \<Longrightarrow> wf (RestartGame s)"
proof -
  assume w: "wf s"
  have 1: "wf (fold RestartGame_marble [0..<kMaxMarbles] s)"
    by (rule fold_invariant [where P = wf]) (simp_all add: w wf_RestartGame_marble)
  have 2: "wf (fold (\<lambda>row. fold (RestartGame_block row) [0..<kNumBlocksPerRow]) [0..<2]
                 (fold RestartGame_marble [0..<kMaxMarbles] s))"
    by (rule fold_invariant [where P = wf], rule 1, rule fold_invariant [where P = wf])
       (simp_all add: wf_RestartGame_block)
  from 2 show ?thesis
    by (simp add: RestartGame_def Let_def)
qed

lemma wf_ShootMarble_from: "wf (ShootMarble_from i s) = wf s"
  by (induction i s rule: ShootMarble_from.induct)
     (subst ShootMarble_from.simps, simp add: Let_def)

lemma wf_ShootMarble: "wf (ShootMarble s) = wf s"
  by (simp add: ShootMarble_def wf_ShootMarble_from)

lemma wf_collideBlock: "wf (collideBlock i row j s) = wf s"
  by (simp add: collideBlock_def Let_def)

lemma wf_collideBlocks: "wf s \<Longrightarrow> wf (collideBlocks i s)"
  unfolding collideBlocks_def
  by (rule fold_invariant [where P = wf], assumption, rule fold_invariant [where P = wf])
     (simp_all add: wf_collideBlock)

lemma wf_updateMarble: "wf s \<Longrightarrow> wf (updateMarble i s)"
  by (simp add: updateMarble_def Let_def wf_collideBlocks)

lemma wf_updateMarbles: "wf s \<Longrightarrow> wf (updateMarbles s)"
  unfolding updateMarbles_def
  by (rule fold_invariant [where P = wf]) (simp_all add: wf_updateMarble)

lemma wf_UpdateGame: "wf s \<Longrightarrow> wf (UpdateGame k s)"
  by (simp add: UpdateGame_def Let_def wf_ShootMarble wf_updateMarbles wf_RestartGame)

lemma wf_Update: "wf s \<Longrightarrow> wf (Update k s)"
  by (cases "currentState s")
     (simp_all add: Update_def Let_def wf_UpdateGame wf_RestartGame)

lemma reachable_wf: "reachable s \<Longrightarrow> wf s"
  by (induction rule: reachable.induct) (simp_all add: wf_SetupScene wf_Update)


section \<open>Frames outside the GAME phase\<close>

text \<open>
  C9. In the MENU phase a frame changes nothing but the phase, which becomes GAME when
  the space key was hit; the restart and quit keys are not polled there. In the OVER phase
  a frame in which neither the restart key nor the quit key was hit leaves the whole state
  as it is, so all marbles and blocks keep their position, flags and states.
\<close>

theorem Update_MENU_OVER:
  "(currentState s = MENU \<longrightarrow>
      Update k s = s\<lparr>currentState := (if Key_Space k then GAME else MENU)\<rparr>) \<and>
   (currentState s = OVER \<and> \<not> Key_0 k \<and> \<not> Key_Escape k \<longrightarrow> Update k s = s)"
  by (simp add: Update_def)

theorem Update_MENU_OVER_witness:
  "currentState SetupScene = MENU \<and>
   Update \<lparr>Key_Space = True, Key_0 = True, Key_Escape = True\<rparr> SetupScene =
     SetupScene\<lparr>currentState := GAME\<rparr> \<and>
   currentState (SetupScene\<lparr>currentState := OVER\<rparr>) = OVER \<and>
   Update \<lparr>Key_Space = True, Key_0 = False, Key_Escape = False\<rparr>
     (SetupScene\<lparr>currentState := OVER\<rparr>) = SetupScene\<lparr>currentState := OVER\<rparr>"
  using Update_MENU_OVER [of SetupScene "\<lparr>Key_Space = True, Key_0 = True, Key_Escape = True\<rparr>"]
    Update_MENU_OVER [of "SetupScene\<lparr>currentState := OVER\<rparr>"
      "\<lparr>Key_Space = True, Key_0 = False, Key_Escape = False\<rparr>"]
  by (simp add: SetupScene_def)

section \<open>Float operations that do not round\<close>

lemma onGrid_iff: "onGrid e c \<longleftrightarrow> 2 ^ e * c \<in> \<int> \<and> 2 ^ e * \<bar>c\<bar> \<le> 512"
  by (simp add: onGrid_def frac_eq_0_iff)

lemma roundeven_of_int [simp]: "roundeven (real_of_int n) = n"
  by (simp add: roundeven_def)

lemma roundeven_0 [simp]: "roundeven 0 = 0"
  using roundeven_of_int [of 0] by simp

lemma bitlen_eqI:
  assumes "2 ^ nat (b - 1) \<le> m" and "m < 2 ^ nat b" and "0 < b"
  shows "bitlen m = b"
proof (rule antisym)
  show "bitlen m \<le> b"
    using assms by (simp add: bitlen_le_iff_power)
  have "nat b - 1 = nat (b - 1)"
    using assms(3) by simp
  then show "b \<le> bitlen m"
    using assms by (simp add: bitlen_ge_iff_power)
qed

lemma fl_0 [simp]: "fl 0 = Finite 0"
  by (simp add: fl_def)

lemma fl_exact:
  assumes m: "\<bar>m\<bar> < 2 ^ 24" and j: "j \<le> 253"
  shows "fl (real_of_int m * 2 ^ j / 2 ^ 149) = Finite (real_of_int m * 2 ^ j / 2 ^ 149)"
proof (cases "m = 0")
  case True
  then show ?thesis by simp
next
  case False
  let ?x = "real_of_int m * 2 ^ j / 2 ^ 149"
  let ?a = "\<bar>m\<bar>"
  have a: "0 < ?a" using False by simp
  have y: "\<bar>?x\<bar> * 2 ^ 149 = real_of_int (?a * 2 ^ j)"
    by (simp add: abs_mult)
  have bl: "bitlen (?a * 2 ^ j) = bitlen ?a + int j"
    using a by (rule bitlen_pow2)
  have b24: "bitlen ?a \<le> 24"
    using m by (simp add: bitlen_le_iff_power)
  have b1: "1 \<le> bitlen ?a"
    using a by (simp add: bitlen_ge_iff_power)
  define c where "c = nat (bitlen ?a + int j - 24)"
  have cj: "c \<le> j"
    using b24 b1 by (simp add: c_def)
  have q: "real_of_int (?a * 2 ^ j) / real_of_int (2 ^ c) = real_of_int (?a * 2 ^ (j - c))"
  proof -
    have "(2::real) ^ j = 2 ^ (j - c) * 2 ^ c"
      using cj by (simp flip: power_add)
    then show ?thesis by simp
  qed
  have n: "roundeven (real_of_int (?a * 2 ^ j) / real_of_int (2 ^ c)) * 2 ^ c = ?a * 2 ^ j"
  proof -
    have "(2::int) ^ j = 2 ^ (j - c) * 2 ^ c"
      using cj by (simp flip: power_add)
    then show ?thesis unfolding q roundeven_of_int by simp
  qed
  have small: "?a * 2 ^ j < 2 ^ 277"
  proof -
    have p: "(2::int) ^ j \<le> 2 ^ 253"
      using j by (intro power_increasing) simp_all
    have "?a * 2 ^ j < 2 ^ 24 * 2 ^ j"
      using m by simp
    also have "\<dots> \<le> 2 ^ 24 * (2::int) ^ 253"
      by (rule mult_left_mono [OF p]) simp
    also have "\<dots> = 2 ^ 277"
      by simp
    finally show ?thesis .
  qed
  have s: "sgn ?x * real_of_int (?a * 2 ^ j) / 2 ^ 149 = ?x"
    using False by (cases "0 < m") (auto simp: sgn_if zero_less_mult_iff)
  show ?thesis
    unfolding fl_def Let_def y floor_of_int bl c_def [symmetric] n
    using small s by (simp add: not_le)
qed

lemma fl_exact_grid:
  assumes "4 * x \<in> \<int>" and "\<bar>x\<bar> \<le> 2097152"
  shows "fl x = Finite x"
proof -
  from assms(1) obtain k :: int where k: "4 * x = real_of_int k"
    by (auto elim: Ints_cases)
  then have x: "x = real_of_int k * 2 ^ 147 / 2 ^ 149"
    by simp
  from k assms(2) have "\<bar>real_of_int k\<bar> \<le> 8388608"
    by (simp flip: k add: abs_mult)
  then have "\<bar>k\<bar> < 2 ^ 24"
    by simp
  then show ?thesis
    unfolding x by (rule fl_exact) simp
qed

lemma sqrt_lt_2: "sqrt x < 2 \<longleftrightarrow> x < 4"
proof -
  have "sqrt x < sqrt 4 \<longleftrightarrow> x < 4" by (rule real_sqrt_less_iff)
  moreover have "sqrt 4 = (2::real)"
    using real_sqrt_abs [of 2] by simp
  ultimately show ?thesis by simp
qed

lemma div_pow2:
  fixes x :: real
  assumes "e \<le> n"
  shows "x / 2 ^ e = x * 2 ^ (n - e) / 2 ^ n"
proof -
  have "(2::real) ^ n = 2 ^ (n - e) * 2 ^ e"
    using assms by (simp flip: power_add)
  then show ?thesis by simp
qed

lemma fl_exact_div:
  assumes "\<bar>m\<bar> < 2 ^ 24" and "e \<le> 149"
  shows "fl (real_of_int m / 2 ^ e) = Finite (real_of_int m / 2 ^ e)"
proof -
  have eq: "real_of_int m / 2 ^ e = real_of_int m * 2 ^ (149 - e) / 2 ^ 149"
    using assms(2) by (rule div_pow2)
  show ?thesis
    unfolding eq using assms(1) by (rule fl_exact) simp
qed

lemma onGridE:
  assumes "onGrid e c"
  obtains n :: int where "c = real_of_int n / 2 ^ e" and "\<bar>n\<bar> \<le> 512"
proof -
  from assms obtain n :: int where n: "2 ^ e * c = real_of_int n"
    by (auto simp: onGrid_iff elim: Ints_cases)
  then have c: "c = real_of_int n / 2 ^ e"
    by (simp add: field_simps)
  from assms have "\<bar>2 ^ e * c\<bar> \<le> 512"
    by (simp add: onGrid_iff abs_mult)
  then have "\<bar>n\<bar> \<le> 512"
    unfolding n by linarith
  with c show ?thesis by (rule that)
qed

lemma square_bound:
  fixes m :: int
  assumes "\<bar>m\<bar> \<le> 1024"
  shows "0 \<le> m * m" and "m * m \<le> 1048576"
proof -
  show "0 \<le> m * m" by simp
  have "\<bar>m\<bar> * \<bar>m\<bar> \<le> 1024 * 1024"
    using assms by (intro mult_mono) simp_all
  then show "m * m \<le> 1048576" by (simp flip: abs_mult)
qed

lemma CheckCollision_on_grid:
  assumes e: "e \<le> 74"
    and "onGrid e (posX m1)" and "onGrid e (posZ m1)"
    and "onGrid e (posX m2)" and "onGrid e (posZ m2)"
  shows "CheckCollision m1 m2 1 \<longleftrightarrow>
     (posX m1 - posX m2) * (posX m1 - posX m2) + (posZ m1 - posZ m2) * (posZ m1 - posZ m2) < 4"
proof -
  from assms(2) obtain a1 :: int where a1: "posX m1 = real_of_int a1 / 2 ^ e" "\<bar>a1\<bar> \<le> 512"
    by (rule onGridE)
  from assms(3) obtain b1 :: int where b1: "posZ m1 = real_of_int b1 / 2 ^ e" "\<bar>b1\<bar> \<le> 512"
    by (rule onGridE)
  from assms(4) obtain a2 :: int where a2: "posX m2 = real_of_int a2 / 2 ^ e" "\<bar>a2\<bar> \<le> 512"
    by (rule onGridE)
  from assms(5) obtain b2 :: int where b2: "posZ m2 = real_of_int b2 / 2 ^ e" "\<bar>b2\<bar> \<le> 512"
    by (rule onGridE)
  define p where "p = a1 - a2"
  define q where "q = b1 - b2"
  define dx where "dx = posX m1 - posX m2"
  define dz where "dz = posZ m1 - posZ m2"
  have p: "\<bar>p\<bar> \<le> 1024" and q: "\<bar>q\<bar> \<le> 1024"
    using a1(2) a2(2) b1(2) b2(2) by (simp_all add: p_def q_def)
  have dx: "dx = real_of_int p / 2 ^ e" and dz: "dz = real_of_int q / 2 ^ e"
    by (simp_all add: dx_def dz_def p_def q_def a1(1) a2(1) b1(1) b2(1) diff_divide_distrib)
  have pw: "(2::real) ^ (2 * e) = 2 ^ e * 2 ^ e"
    by (simp add: mult_2 power_add)
  have sq: "dx * dx = real_of_int (p * p) / 2 ^ (2 * e)"
    "dz * dz = real_of_int (q * q) / 2 ^ (2 * e)"
    unfolding pw by (simp_all add: dx dz)
  have sum: "dx * dx + dz * dz = real_of_int (p * p + q * q) / 2 ^ (2 * e)"
    by (simp add: sq add_divide_distrib)
  have e1: "e \<le> 149" and e2: "2 * e \<le> 149"
    using e by simp_all
  have p24: "\<bar>p\<bar> < 2 ^ 24" and q24: "\<bar>q\<bar> < 2 ^ 24"
    using p q by simp_all
  have pp: "\<bar>p * p\<bar> < 2 ^ 24" and qq: "\<bar>q * q\<bar> < 2 ^ 24"
    and pq: "\<bar>p * p + q * q\<bar> < 2 ^ 24"
    using square_bound [OF p] square_bound [OF q] by simp_all
  have 1: "fl dx = Finite dx" "fl dz = Finite dz"
    unfolding dx dz by (rule fl_exact_div [OF p24 e1], rule fl_exact_div [OF q24 e1])
  have 2: "fl (dx * dx) = Finite (dx * dx)" "fl (dz * dz) = Finite (dz * dz)"
    unfolding sq by (rule fl_exact_div [OF pp e2], rule fl_exact_div [OF qq e2])
  have 3: "fl (dx * dx + dz * dz) = Finite (dx * dx + dz * dz)"
    unfolding sum by (rule fl_exact_div [OF pq e2])
  have 4: "fl 2 = Finite 2" "fl 4 = Finite 4"
    using fl_exact_div [of 2 0] fl_exact_div [of 4 0] by simp_all
  show ?thesis
    by (simp add: CheckCollision_def GetX_def GetZ_def fsub_def Let_def
          dx_def [symmetric] dz_def [symmetric] 1 2 3 4)
qed

lemma CheckCollision_half_grid:
  assumes "onGrid 1 (posX m1)" and "onGrid 1 (posZ m1)"
    and "onGrid 1 (posX m2)" and "onGrid 1 (posZ m2)"
  shows "CheckCollision m1 m2 1 \<longleftrightarrow>
     (posX m1 - posX m2) * (posX m1 - posX m2) + (posZ m1 - posZ m2) * (posZ m1 - posZ m2) < 4"
  using assms by (intro CheckCollision_on_grid [of 1]) simp_all

lemma fl_exact_nat: "n < 16777216 \<Longrightarrow> fl (real n) = Finite (real n)"
  using fl_exact_div [of "int n" 0] by simp

lemma block_position_exact:
  assumes "i < kNumBlocksPerRow" and "row < 2"
  shows "fsub (fmul (Finite (real i)) (Finite kBlockWidth)) (Finite 5) =
           Finite (real i * kBlockWidth - 5)"
    and "fadd (fmul (Finite (real row)) (Finite 5)) (Finite 10) = Finite (real row * 5 + 10)"
proof -
  have 1: "fl (real i * 2) = Finite (real i * 2)"
    using fl_exact_nat [of "i * 2"] assms(1) by (simp add: kNumBlocksPerRow_def)
  have 2: "fl (real i * 2 - 5) = Finite (real i * 2 - 5)"
    using fl_exact_div [of "int i * 2 - 5" 0] assms(1) by (simp add: kNumBlocksPerRow_def)
  show "fsub (fmul (Finite (real i)) (Finite kBlockWidth)) (Finite 5) =
           Finite (real i * kBlockWidth - 5)"
    by (simp add: kBlockWidth_def fsub_def 1 2)
  have 3: "fl (real row * 5) = Finite (real row * 5)"
    using fl_exact_nat [of "row * 5"] assms(2) by simp
  have 4: "fl (real row * 5 + 10) = Finite (real row * 5 + 10)"
    using fl_exact_nat [of "row * 5 + 10"] assms(2) by simp
  show "fadd (fmul (Finite (real row)) (Finite 5)) (Finite 10) = Finite (real row * 5 + 10)"
    by (simp add: 3 4)
qed

section \<open>Float operations that round\<close>

lemma fl_pos:
  assumes "0 < x"
    and "real_of_int k \<le> x * 2 ^ 149" and "x * 2 ^ 149 < real_of_int k + 1"
    and "2 ^ nat (b - 1) \<le> k" and "k < 2 ^ nat b" and "0 < b"
    and "roundeven (x * 2 ^ 149 / 2 ^ nat (b - 24)) = r"
    and "r * 2 ^ nat (b - 24) < 2 ^ 277"
  shows "fl x = Finite (real_of_int (r * 2 ^ nat (b - 24)) / 2 ^ 149)"
proof -
  have f: "\<lfloor>x * 2 ^ 149\<rfloor> = k"
    using assms(2,3) by (simp add: floor_eq_iff)
  have bl: "bitlen k = b"
    using assms(4,5,6) by (rule bitlen_eqI)
  have a: "\<bar>x\<bar> = x" "sgn x = 1"
    using assms(1) by simp_all
  show ?thesis
    unfolding fl_def Let_def a f bl
    using assms(7,8) by (simp add: not_le)
qed

lemma fl_square_rounds_to_3: "fl (14529495 / 8388608 * (14529495 / 8388608)) = Finite 3"
proof -
  have "fl (14529495 / 8388608 * (14529495 / 8388608)) =
        Finite (real_of_int (12582912 * 2 ^ nat (151 - 24)) / 2 ^ 149)"
    by (rule fl_pos [where k = "211106224955025 * 2 ^ 103"])
       (simp_all add: roundeven_def)
  then show ?thesis by simp
qed

lemma CheckCollision_sum_rounds_up:
  "\<not> CheckCollision (CreateModel 0 0 0) (CreateModel 1 0 (14529495 / 8388608)) 1"
proof -
  have 1: "fl (- (14529495 / 8388608)) = Finite (- (14529495 / 8388608))"
    using fl_exact [of "- 14529495" 126] by simp
  have 2: "fl (- 1) = Finite (- 1)" "fl 1 = Finite 1" "fl 2 = Finite 2" "fl 4 = Finite 4"
    by (auto intro!: fl_exact_grid)
  have 3: "fl (211106224955025 / 70368744177664) = Finite 3"
    using fl_square_rounds_to_3 by simp
  show ?thesis
    by (simp add: CheckCollision_def GetX_def GetZ_def CreateModel_def fsub_def Let_def
          1 2 3)
qed

lemma fl_rounded_steps:
  "fl (23247975 / 67108864) = Finite (2905997 / 8388608)"
  "fl (33047249 / 16777216) = Finite (2065453 / 1048576)"
  "fl (8444818564009 / 70368744177664) = Finite (16107213 / 134217728)"
  "fl (4266096095209 / 1099511627776) = Finite (16273865 / 4194304)"
  "fl (536870893 / 134217728) = Finite (16777215 / 4194304)"
proof -
  have "fl (23247975 / 67108864) =
        Finite (real_of_int (11623988 * 2 ^ nat (148 - 24)) / 2 ^ 149)"
    by (rule fl_pos [where k = "23247975 * 2 ^ 123"]) (simp_all add: roundeven_def)
  then show "fl (23247975 / 67108864) = Finite (2905997 / 8388608)" by simp
  have "fl (33047249 / 16777216) =
        Finite (real_of_int (16523624 * 2 ^ nat (150 - 24)) / 2 ^ 149)"
    by (rule fl_pos [where k = "33047249 * 2 ^ 125"]) (simp_all add: roundeven_def)
  then show "fl (33047249 / 16777216) = Finite (2065453 / 1048576)" by simp
  have "fl (8444818564009 / 70368744177664) =
        Finite (real_of_int (16107213 * 2 ^ nat (146 - 24)) / 2 ^ 149)"
    by (rule fl_pos [where k = "8444818564009 * 2 ^ 103"]) (simp_all add: roundeven_def)
  then show "fl (8444818564009 / 70368744177664) = Finite (16107213 / 134217728)" by simp
  have "fl (4266096095209 / 1099511627776) =
        Finite (real_of_int (16273865 * 2 ^ nat (151 - 24)) / 2 ^ 149)"
    by (rule fl_pos [where k = "4266096095209 * 2 ^ 109"]) (simp_all add: roundeven_def)
  then show "fl (4266096095209 / 1099511627776) = Finite (16273865 / 4194304)" by simp
  have "fl (536870893 / 134217728) =
        Finite (real_of_int (16777215 * 2 ^ nat (151 - 24)) / 2 ^ 149)"
    by (rule fl_pos [where k = "536870893 * 2 ^ 122"]) (simp_all add: roundeven_def)
  then show "fl (536870893 / 134217728) = Finite (16777215 / 4194304)" by simp
qed

lemma CheckCollision_differences_round_down:
  "CheckCollision (CreateModel (4507369 / 33554432) 0 (14871561 / 8388608))
     (CreateModel (- (14233237 / 67108864)) 0 (- (3304127 / 16777216))) 1"
proof -
  have 2: "fl 2 = Finite 2" "fl 4 = Finite 4"
    by (auto intro!: fl_exact_grid)
  show ?thesis
    by (simp add: CheckCollision_def GetX_def GetZ_def CreateModel_def fsub_def Let_def
          2 fl_rounded_steps)
qed

lemma coordinates_are_floats:
  "fl (4507369 / 33554432) = Finite (4507369 / 33554432)"
  "fl (14871561 / 8388608) = Finite (14871561 / 8388608)"
  "fl (- (14233237 / 67108864)) = Finite (- (14233237 / 67108864))"
  "fl (- (3304127 / 16777216)) = Finite (- (3304127 / 16777216))"
  "fl (14529495 / 8388608) = Finite (14529495 / 8388608)"
  using fl_exact [of 4507369 124] fl_exact [of 14871561 126] fl_exact [of "- 14233237" 123]
    fl_exact [of "- 3304127" 125] fl_exact [of 14529495 126]
  by simp_all

section \<open>States written out, ShootMarble and RestartGame unfolded\<close>

lemma length_3_explicit: "length xs = 3 \<Longrightarrow> \<exists>a b c. xs = [a, b, c]"
  by (auto simp: eval_nat_numeral length_Suc_conv)

lemma length_5_explicit: "length xs = 5 \<Longrightarrow> \<exists>a b c d e. xs = [a, b, c, d, e]"
  by (auto simp: eval_nat_numeral length_Suc_conv)

lemma rows_explicit:
  assumes "map length xss = replicate 2 kNumBlocksPerRow"
  shows "\<exists>a0 a1 a2 a3 a4 b0 b1 b2 b3 b4. xss = [[a0, a1, a2, a3, a4], [b0, b1, b2, b3, b4]]"
proof -
  from assms have "map length xss = [5, 5]"
    by (simp add: kNumBlocksPerRow_def eval_nat_numeral)
  then obtain r0 r1 where x: "xss = [r0, r1]" and "length r0 = 5" and "length r1 = 5"
    by (auto simp: map_eq_Cons_conv)
  then show ?thesis
    using length_5_explicit [of r0] length_5_explicit [of r1] by auto
qed

lemma wf_explicit:
  assumes "wf s"
  obtains m0 m1 m2 a0 a1 a2 a3 a4 b0 b1 b2 b3 b4 c0 c1 c2 c3 c4 d0 d1 d2 d3 d4
  where "marbles s = [m0, m1, m2]"
    and "blocks s = [[a0, a1, a2, a3, a4], [b0, b1, b2, b3, b4]]"
    and "blockStates s = [[c0, c1, c2, c3, c4], [d0, d1, d2, d3, d4]]"
proof -
  from assms have "length (marbles s) = 3"
    by (simp add: wf_def kMaxMarbles_def)
  then obtain m0 m1 m2 where m: "marbles s = [m0, m1, m2]"
    using length_3_explicit by blast
  from assms obtain a0 a1 a2 a3 a4 b0 b1 b2 b3 b4
    where b: "blocks s = [[a0, a1, a2, a3, a4], [b0, b1, b2, b3, b4]]"
    using rows_explicit [of "blocks s"] by (auto simp: wf_def)
  from assms obtain c0 c1 c2 c3 c4 d0 d1 d2 d3 d4
    where c: "blockStates s = [[c0, c1, c2, c3, c4], [d0, d1, d2, d3, d4]]"
    using rows_explicit [of "blockStates s"] by (auto simp: wf_def)
  show ?thesis by (rule that [OF m b c])
qed

lemma marble_upd_twice: "marble_upd i f (marble_upd i g s) = marble_upd i (\<lambda>m. f (g m)) s"
  by (cases "i < length (marbles s)") (simp_all add: marble_upd_def list_update_beyond)

lemma ShootMarble_unfold:
  "ShootMarble s =
     (if \<not> active (marbles s ! 0) then marble_upd 0 activate s
      else if \<not> active (marbles s ! 1) then marble_upd 1 activate s
      else if \<not> active (marbles s ! 2) then marble_upd 2 activate s
      else s)"
proof -
  have a: "\<And>i. marble_upd i (\<lambda>m. m\<lparr>active := True\<rparr>)
        (marble_upd i (\<lambda>m. m\<lparr>model := SetVisible True (model m)\<rparr>)
          (marble_upd i (\<lambda>m. m\<lparr>model := SetPosition 0 0 0 (model m)\<rparr>) s)) =
        marble_upd i activate s"
    by (simp add: marble_upd_twice activate_def [abs_def] SetVisible_def SetPosition_def)
  have 3: "ShootMarble_from (Suc (Suc (Suc 0))) s = s"
    by (subst ShootMarble_from.simps) (simp add: kMaxMarbles_def numeral_3_eq_3)
  have 2: "ShootMarble_from (Suc (Suc 0)) s =
     (if \<not> active (marbles s ! 2) then marble_upd 2 activate s else s)"
    by (subst ShootMarble_from.simps) (simp add: kMaxMarbles_def Let_def a 3 numeral_2_eq_2 numeral_3_eq_3)
  have 1: "ShootMarble_from (Suc 0) s =
     (if \<not> active (marbles s ! 1) then marble_upd 1 activate s 
      else if \<not> active (marbles s ! 2) then marble_upd 2 activate s else s)"
    by (subst ShootMarble_from.simps) (simp add: kMaxMarbles_def Let_def a 2 numeral_2_eq_2 numeral_3_eq_3)
  show ?thesis
    unfolding ShootMarble_def
    by (subst ShootMarble_from.simps) (simp add: kMaxMarbles_def Let_def a 1 numeral_2_eq_2 numeral_3_eq_3)
qed

lemma upt_2: "[0..<2] = [0, 1]"
  by (simp add: eval_nat_numeral)

lemma upt_3: "[0..<3] = [0, 1, 2]"
  by (simp add: eval_nat_numeral)

lemma upt_5: "[0..<5] = [0, 1, 2, 3, 4]"
  by (simp add: eval_nat_numeral)

lemma RestartGame_marbles:
  assumes "marbles s = [m0, m1, m2]"
  shows "fold RestartGame_marble [0..<kMaxMarbles] s = s\<lparr>marbles := map resetMarble (marbles s)\<rparr>"
  using assms
  by (simp add: RestartGame_marble_def Let_def marble_upd_twice kMaxMarbles_def upt_3
       marble_upd_def resetMarble_def)

lemma block_upd_twice:
  "block_upd row j f (block_upd row j g s) = block_upd row j (\<lambda>m. f (g m)) s"
  by (cases "row < length (blocks s)"; cases "j < length (blocks s ! row)")
     (simp_all add: block_upd_def list_update_beyond)

lemma RestartGame_block_alt:
  "RestartGame_block row i s = blockState_set row i NORMAL (block_upd row i (resetBlock row i) s)"
  by (simp add: RestartGame_block_def Let_def block_upd_twice resetBlock_def [abs_def])

lemma RestartGame_blocks:
  assumes "blocks s = [[a0, a1, a2, a3, a4], [b0, b1, b2, b3, b4]]"
    and "blockStates s = [[c0, c1, c2, c3, c4], [d0, d1, d2, d3, d4]]"
  shows "fold (\<lambda>row. fold (RestartGame_block row) [0..<kNumBlocksPerRow]) [0..<2] s =
     s\<lparr>blocks := [[resetBlock 0 0 a0, resetBlock 0 1 a1, resetBlock 0 2 a2, resetBlock 0 3 a3,
                     resetBlock 0 4 a4],
                    [resetBlock 1 0 b0, resetBlock 1 1 b1, resetBlock 1 2 b2, resetBlock 1 3 b3,
                     resetBlock 1 4 b4]],
        blockStates := replicate 2 (replicate kNumBlocksPerRow NORMAL)\<rparr>"
  using assms
  by (simp add: RestartGame_block_alt kNumBlocksPerRow_def upt_2 upt_5
        block_upd_def blockState_set_def eval_nat_numeral)

lemma RestartGame_explicit:
  assumes "marbles s = [m0, m1, m2]"
    and "blocks s = [[a0, a1, a2, a3, a4], [b0, b1, b2, b3, b4]]"
    and "blockStates s = [[c0, c1, c2, c3, c4], [d0, d1, d2, d3, d4]]"
  shows "RestartGame s =
     s\<lparr>marbles := [resetMarble m0, resetMarble m1, resetMarble m2],
        blocks := [[resetBlock 0 0 a0, resetBlock 0 1 a1, resetBlock 0 2 a2, resetBlock 0 3 a3,
                     resetBlock 0 4 a4],
                    [resetBlock 1 0 b0, resetBlock 1 1 b1, resetBlock 1 2 b2, resetBlock 1 3 b3,
                     resetBlock 1 4 b4]],
        blockStates := replicate 2 (replicate kNumBlocksPerRow NORMAL),
        gameOverText := False, currentState := GAME\<rparr>"
proof -
  let ?s1 = "fold RestartGame_marble [0..<kMaxMarbles] s"
  have 1: "?s1 = s\<lparr>marbles := map resetMarble (marbles s)\<rparr>"
    using assms(1) by (rule RestartGame_marbles)
  have 2: "fold (\<lambda>row. fold (RestartGame_block row) [0..<kNumBlocksPerRow]) [0..<2] ?s1 =
     ?s1\<lparr>blocks := [[resetBlock 0 0 a0, resetBlock 0 1 a1, resetBlock 0 2 a2, resetBlock 0 3 a3,
                     resetBlock 0 4 a4],
                    [resetBlock 1 0 b0, resetBlock 1 1 b1, resetBlock 1 2 b2, resetBlock 1 3 b3,
                     resetBlock 1 4 b4]],
        blockStates := replicate 2 (replicate kNumBlocksPerRow NORMAL)\<rparr>"
    by (rule RestartGame_blocks [where ?c0.0 = c0 and ?c1.0 = c1 and ?c2.0 = c2 and ?c3.0 = c3 and ?c4.0 = c4
            and ?d0.0 = d0 and ?d1.0 = d1 and ?d2.0 = d2 and ?d3.0 = d3 and ?d4.0 = d4])
       (simp_all add: 1 assms)
  show ?thesis
    unfolding RestartGame_def Let_def 2 by (simp add: 1 assms(1))
qed

lemma resetMarble_idem: "resetMarble (resetMarble m) = resetMarble m"
  by (simp add: resetMarble_def SetPosition_def SetVisible_def)

lemma resetBlock_idem: "resetBlock row i (resetBlock row i b) = resetBlock row i b"
  by (simp add: resetBlock_def SetPosition_def SetVisible_def SetSkin_def)

lemma RestartGame_idem: 
  assumes "wf s" shows "RestartGame (RestartGame s) = RestartGame s"
proof -
  from assms obtain m0 m1 m2 a0 a1 a2 a3 a4 b0 b1 b2 b3 b4 c0 c1 c2 c3 c4 d0 d1 d2 d3 d4
    where m: "marbles s = [m0, m1, m2]"
      and b: "blocks s = [[a0, a1, a2, a3, a4], [b0, b1, b2, b3, b4]]"
      and c: "blockStates s = [[c0, c1, c2, c3, c4], [d0, d1, d2, d3, d4]]"
    by (rule wf_explicit)
  note 1 = RestartGame_explicit [OF m b c]
  let ?s' = "RestartGame s"
  have m': "marbles ?s' = [resetMarble m0, resetMarble m1, resetMarble m2]"
    by (simp add: 1)
  have b': "blocks ?s' =
     [[resetBlock 0 0 a0, resetBlock 0 1 a1, resetBlock 0 2 a2, resetBlock 0 3 a3,
       resetBlock 0 4 a4],
      [resetBlock 1 0 b0, resetBlock 1 1 b1, resetBlock 1 2 b2, resetBlock 1 3 b3,
       resetBlock 1 4 b4]]"
    by (simp add: 1)
  have c': "blockStates ?s' =
     [[NORMAL, NORMAL, NORMAL, NORMAL, NORMAL], [NORMAL, NORMAL, NORMAL, NORMAL, NORMAL]]"
    by (simp add: 1 kNumBlocksPerRow_def eval_nat_numeral)
  have "RestartGame ?s' =
     ?s'\<lparr>marbles := [resetMarble (resetMarble m0), resetMarble (resetMarble m1),
                      resetMarble (resetMarble m2)],
        blocks := [[resetBlock 0 0 (resetBlock 0 0 a0), resetBlock 0 1 (resetBlock 0 1 a1),
                     resetBlock 0 2 (resetBlock 0 2 a2), resetBlock 0 3 (resetBlock 0 3 a3),
                     resetBlock 0 4 (resetBlock 0 4 a4)],
                    [resetBlock 1 0 (resetBlock 1 0 b0), resetBlock 1 1 (resetBlock 1 1 b1),
                     resetBlock 1 2 (resetBlock 1 2 b2), resetBlock 1 3 (resetBlock 1 3 b3),
                     resetBlock 1 4 (resetBlock 1 4 b4)]],
        blockStates := replicate 2 (replicate kNumBlocksPerRow NORMAL),
        gameOverText := False, currentState := GAME\<rparr>"
    by (rule RestartGame_explicit [OF m' b' c'])
  also have "\<dots> = ?s'"
    unfolding 1 by (simp add: resetMarble_idem resetBlock_idem)
  finally show ?thesis .
qed

section \<open>The marble pool\<close>

lemma activeCount_ShootMarble:
  assumes "wf s"
  shows "activeCount (ShootMarble s) = min (activeCount s + 1) kMaxMarbles"
proof -
  from assms obtain m0 m1 m2 where m: "marbles s = [m0, m1, m2]"
    by (rule wf_explicit)
  then show ?thesis
    by (simp add: ShootMarble_unfold activeCount_def marble_upd_def activate_def kMaxMarbles_def)
qed

lemma wf_ShootMarble_pow: "wf ((ShootMarble ^^ n) s) = wf s"
  by (induction n) (simp_all add: wf_ShootMarble)

lemma activeCount_le: "wf s \<Longrightarrow> activeCount s \<le> kMaxMarbles"
  using length_filter_le [of active "marbles s"] by (simp add: activeCount_def wf_def)

lemma activeCount_ShootMarble_pow:
  assumes "wf s"
  shows "activeCount ((ShootMarble ^^ n) s) = min (activeCount s + n) kMaxMarbles"
proof (induction n)
  case 0
  from assms show ?case by (simp add: activeCount_le)
next
  case (Suc n)
  have "wf ((ShootMarble ^^ n) s)"
    using assms by (simp add: wf_ShootMarble_pow)
  then have "activeCount ((ShootMarble ^^ Suc n) s) =
      min (activeCount ((ShootMarble ^^ n) s) + 1) kMaxMarbles"
    by (simp add: activeCount_ShootMarble)
  with Suc show ?case by simp
qed

lemma ShootMarble_first_free:
  assumes "i < kMaxMarbles" and "\<not> active (marbles s ! i)" and "\<forall>j<i. active (marbles s ! j)"
  shows "ShootMarble s = marble_upd i activate s"
proof -
  from assms(1) have "i = 0 \<or> i = 1 \<or> i = 2"
    by (auto simp: kMaxMarbles_def)
  with assms(2,3) show ?thesis
    by (auto simp: ShootMarble_unfold)
qed

lemma ShootMarble_full:
  assumes "\<forall>i<kMaxMarbles. active (marbles s ! i)"
  shows "ShootMarble s = s"
  using assms by (simp add: ShootMarble_unfold kMaxMarbles_def)

section \<open>Shooting\<close>

text \<open>
  C5. \<open>ShootMarble\<close> takes the first inactive slot of the pool: the marble there is put
  at the origin, made visible and activated, and nothing else changes. When all three
  slots are active the call changes nothing at all. So from a state with no active marble,
  \<open>n\<close> calls in a row, with no marble moving in between, leave exactly \<open>min n 3\<close> marbles
  active.
\<close>

theorem ShootMarble_pool:
  assumes "wf s"
  shows "(i < kMaxMarbles \<and> \<not> active (marbles s ! i) \<and> (\<forall>j<i. active (marbles s ! j)) \<longrightarrow>
           ShootMarble s = s\<lparr>marbles := (marbles s)[i := (marbles s ! i)
               \<lparr>model := (model (marbles s ! i))\<lparr>posX := 0, posY := 0, posZ := 0, visible := True\<rparr>,
                active := True\<rparr>]\<rparr>) \<and>
         ((\<forall>i<kMaxMarbles. active (marbles s ! i)) \<longrightarrow> ShootMarble s = s) \<and>
         (activeCount s = 0 \<longrightarrow> activeCount ((ShootMarble ^^ n) s) = min n kMaxMarbles)"
  using assms ShootMarble_first_free [of i s] ShootMarble_full [of s]
    activeCount_ShootMarble_pow [of s n]
  by (simp add: marble_upd_def activate_def)

text \<open>
  The scene after setup has three free slots: the first call takes slot 0, two calls leave
  two marbles active, five leave three, and a fourth call changes nothing.
\<close>

theorem ShootMarble_pool_witness:
  "ShootMarble SetupScene = SetupScene\<lparr>marbles := (marbles SetupScene)[0 := (marbles SetupScene ! 0)
               \<lparr>model := (model (marbles SetupScene ! 0))\<lparr>posX := 0, posY := 0, posZ := 0, visible := True\<rparr>,
                active := True\<rparr>]\<rparr> \<and>
   activeCount ((ShootMarble ^^ 2) SetupScene) = 2 \<and>
   activeCount ((ShootMarble ^^ 5) SetupScene) = 3 \<and>
   ShootMarble ((ShootMarble ^^ 3) SetupScene) = (ShootMarble ^^ 3) SetupScene"
proof -
  have a: "activeCount SetupScene = 0"
    by (simp add: activeCount_def SetupScene_def kMaxMarbles_def upt_3)
  have m: "marbles SetupScene ! 0 = \<lparr>model = SetVisible False (CreateModel 0 0 0), active = False\<rparr>"
    by (simp add: SetupScene_def kMaxMarbles_def upt_3)
  let ?s3 = "(ShootMarble ^^ 3) SetupScene"
  have w3: "wf ?s3"
    by (simp add: wf_ShootMarble_pow wf_SetupScene)
  have f: "\<forall>i<kMaxMarbles. active (marbles ?s3 ! i)"
    by (simp add: eval_nat_numeral ShootMarble_unfold SetupScene_def kMaxMarbles_def
          All_less_Suc marble_upd_def activate_def)
  show ?thesis
    using ShootMarble_pool [OF wf_SetupScene, of 0 2] ShootMarble_pool [OF wf_SetupScene, of 0 5]
      ShootMarble_pool [OF w3, of 0 0] a m f
    by (simp add: kMaxMarbles_def)
qed

section \<open>One collision test\<close>

lemma collideBlock_alt:
  "collideBlock i row j s =
     (if hits i row j s
      then blockState_set row j (nextState (blockStates s ! row ! j))
             (block_upd row j (damage (blockStates s ! row ! j)) (marble_upd i deactivate s))
      else s)"
proof (cases "blockStates s ! row ! j")
  case NORMAL
  then show ?thesis
    by (simp add: collideBlock_def hits_def Let_def marble_upd_twice deactivate_def [abs_def])
next
  case HIT_ONCE
  then show ?thesis
    by (simp add: collideBlock_def hits_def Let_def marble_upd_twice deactivate_def [abs_def]
          block_upd_def blockState_set_def)
next
  case DEAD
  then show ?thesis
    by (simp add: collideBlock_def hits_def)
qed

lemma collideBlock_fields [simp]:
  "gameOverText (collideBlock i row j s) = gameOverText s"
  "currentState (collideBlock i row j s) = currentState s"
  "running (collideBlock i row j s) = running s"
  by (simp_all add: collideBlock_alt)

lemma collideBlock_marbles:
  "marbles (collideBlock i row j s) =
     (if hits i row j s then (marbles s)[i := deactivate (marbles s ! i)] else marbles s)"
  by (simp add: collideBlock_alt)

lemma collideBlock_blockStates:
  "blockStates (collideBlock i row j s) =
     (if hits i row j s
      then (blockStates s)[row := (blockStates s ! row)[j := nextState (blockStates s ! row ! j)]]
      else blockStates s)"
  by (simp add: collideBlock_alt)

lemma collideBlock_blocks:
  "blocks (collideBlock i row j s) =
     (if hits i row j s
      then (blocks s)[row := (blocks s ! row)[j := damage (blockStates s ! row ! j) (blocks s ! row ! j)]]
      else blocks s)"
  by (simp add: collideBlock_alt)

lemma damage_pos [simp]:
  "posX (damage c b) = posX b" "posY (damage c b) = posY b" "posZ (damage c b) = posZ b"
  by (cases c; simp add: SetSkin_def SetVisible_def)+

lemma deactivate_simps [simp]:
  "active (deactivate m) = False"
  "visible (model (deactivate m)) = False"
  "posX (model (deactivate m)) = posX (model m)"
  "posY (model (deactivate m)) = posY (model m)"
  "posZ (model (deactivate m)) = posZ (model m)"
  "skin (model (deactivate m)) = skin (model m)"
  "deactivate (deactivate m) = deactivate m"
  by (simp_all add: deactivate_def SetVisible_def)

lemma geom_collideBlock: "geom (collideBlock i row j s) = geom s"
  by (simp add: geom_def collideBlock_marbles collideBlock_blocks map_update_same map_update_same2)

lemma nth2_update:
  "row < length xss \<Longrightarrow> j < length (xss ! row) \<Longrightarrow>
   xss[row := (xss ! row)[j := v]] ! r ! k = (if r = row \<and> k = j then v else xss ! r ! k)"
  by (simp add: nth_list_update)

lemma wf_row_length:
  "wf s \<Longrightarrow> row < 2 \<Longrightarrow> length (blocks s ! row) = kNumBlocksPerRow"
  "wf s \<Longrightarrow> row < 2 \<Longrightarrow> length (blockStates s ! row) = kNumBlocksPerRow"
  "wf s \<Longrightarrow> length (blocks s) = 2"
  "wf s \<Longrightarrow> length (blockStates s) = 2"
  "wf s \<Longrightarrow> length (marbles s) = kMaxMarbles"
proof -
  assume w: "wf s"
  then have b: "map length (blocks s) = [kNumBlocksPerRow, kNumBlocksPerRow]"
    and c: "map length (blockStates s) = [kNumBlocksPerRow, kNumBlocksPerRow]"
    by (simp_all add: wf_def eval_nat_numeral)
  from b show lb: "length (blocks s) = 2" by (auto simp: map_eq_Cons_conv)
  from c show lc: "length (blockStates s) = 2" by (auto simp: map_eq_Cons_conv)
  from w show "length (marbles s) = kMaxMarbles" by (simp add: wf_def)
  {
    assume r: "row < 2"
    from r lb have "length (blocks s ! row) = map length (blocks s) ! row" by simp
    with b r show "length (blocks s ! row) = kNumBlocksPerRow"
      by (auto simp: less_2_cases_iff)
    from r lc have "length (blockStates s ! row) = map length (blockStates s) ! row" by simp
    with c r show "length (blockStates s ! row) = kNumBlocksPerRow"
      by (auto simp: less_2_cases_iff)
  }
qed

lemma collideBlock_cell:
  assumes "wf s" and "row < 2" and "j < kNumBlocksPerRow"
  shows "blockStates (collideBlock i row j s) ! r ! k =
     (if r = row \<and> k = j \<and> hits i row j s then nextState (blockStates s ! row ! j)
      else blockStates s ! r ! k)"
  using assms by (simp add: collideBlock_blockStates nth2_update wf_row_length)

section \<open>A loop that touches a cell once\<close>

lemma hits_collides: "hits i row j s \<longleftrightarrow> blockStates s ! row ! j \<noteq> DEAD \<and> collides i row j s"
  by (simp add: hits_def collides_def)

lemma map_eq_nth: "map f xs = map f ys \<Longrightarrow> i < length ys \<Longrightarrow> f (xs ! i) = f (ys ! i)"
  by (metis length_map nth_map)

lemma map_map_eq_nth:
  assumes "map (map f) xss = map (map f) yss" and "r < length yss" and "j < length (yss ! r)"
  shows "f (xss ! r ! j) = f (yss ! r ! j)"
proof -
  from assms(1,2) have "map f (xss ! r) = map f (yss ! r)"
    by (rule map_eq_nth)
  then show ?thesis using assms(3) by (rule map_eq_nth)
qed

lemma collides_geom:
  assumes "geom s' = geom s" and "wf s" and "i < kMaxMarbles" and "row < 2"
    and "j < kNumBlocksPerRow"
  shows "collides i row j s' = collides i row j s"
proof -
  from assms(1) have m: "map (\<lambda>m. (posX (model m), posZ (model m))) (marbles s') =
      map (\<lambda>m. (posX (model m), posZ (model m))) (marbles s)"
    and b: "map (map (\<lambda>b. (posX b, posZ b))) (blocks s') = map (map (\<lambda>b. (posX b, posZ b))) (blocks s)"
    by (simp_all add: geom_def)
  from assms have "i < length (marbles s)"
    by (simp add: wf_row_length)
  with m have 1: "(posX (model (marbles s' ! i)), posZ (model (marbles s' ! i))) =
      (posX (model (marbles s ! i)), posZ (model (marbles s ! i)))"
    by (rule map_eq_nth)
  from assms have "row < length (blocks s)" and "j < length (blocks s ! row)"
    by (simp_all add: wf_row_length)
  with b have 2: "(posX (blocks s' ! row ! j), posZ (blocks s' ! row ! j)) =
      (posX (blocks s ! row ! j), posZ (blocks s ! row ! j))"
    by (rule map_map_eq_nth)
  from 1 2 show ?thesis
    by (simp add: collides_def CheckCollision_def GetX_def GetZ_def)
qed

lemma upt_split:
  assumes "j < n" shows "[0..<n] = [0..<j] @ j # [Suc j..<n]"
proof -
  from assms have "[0..<j + (n - j)] = [0..<j] @ [j..<j + (n - j)]"
    by (intro upt_add_eq_append) simp
  with assms show ?thesis
    by (simp add: upt_conv_Cons)
qed

lemma fold_untouched:
  assumes "\<And>k s. k \<in> set xs \<Longrightarrow> I s \<Longrightarrow> I (f k s) \<and> g (f k s) = g s" and "I s"
  shows "I (fold f xs s) \<and> g (fold f xs s) = g s"
  using assms by (induction xs arbitrary: s) auto

lemma fold_touch_once:
  assumes j: "j < n"
    and others: "\<And>k s. k < n \<Longrightarrow> k \<noteq> j \<Longrightarrow> I s \<Longrightarrow> I (f k s) \<and> g (f k s) = g s"
    and here: "\<And>s. I s \<Longrightarrow> I (f j s) \<and> g (f j s) = h (g s)"
    and I: "I s"
  shows "I (fold f [0..<n] s) \<and> g (fold f [0..<n] s) = h (g s)"
proof -
  let ?a = "fold f [0..<j] s"
  have a: "I ?a \<and> g ?a = g s"
    using j by (intro fold_untouched others I) auto
  let ?b = "f j ?a"
  have b: "I ?b \<and> g ?b = h (g s)"
    using here [of ?a] a by simp
  have c: "I (fold f [Suc j..<n] ?b) \<and> g (fold f [Suc j..<n] ?b) = g ?b"
    using b by (intro fold_untouched others) auto
  show ?thesis
    using b c by (simp add: upt_split [OF j])
qed

lemma hitCell_DEAD: "fst cb = DEAD \<Longrightarrow> hitCell cb = cb"
  by (cases cb) (simp add: hitCell_def)

lemma collideBlock_cellOf:
  assumes "wf s" and "row < 2" and "j < kNumBlocksPerRow"
  shows "cellOf (collideBlock i row j s) r k =
     (if r = row \<and> k = j \<and> collides i row j s then hitCell (cellOf s row j) else cellOf s r k)"
  using assms
  by (auto simp: cellOf_def hitCell_def collideBlock_blockStates collideBlock_blocks nth2_update
        wf_row_length hits_collides)

section \<open>The block loops of one marble\<close>

lemma collideBlock_step:
  assumes w: "wf s" and i: "i < kMaxMarbles" and r: "r < 2" and k: "k < kNumBlocksPerRow"
    and row: "row < 2" and j: "j < kNumBlocksPerRow" and w': "wf s'" and g: "geom s' = geom s"
  shows "(wf (collideBlock i row j s') \<and> geom (collideBlock i row j s') = geom s) \<and>
      cellOf (collideBlock i row j s') r k =
        (if row = r \<and> j = k
         then (if collides i r k s then hitCell (cellOf s' r k) else cellOf s' r k)
         else cellOf s' r k)"
proof -
  have "collides i row j s' = collides i row j s"
    using g w i row j by (rule collides_geom)
  then show ?thesis
    using w' g row j by (simp add: wf_collideBlock geom_collideBlock collideBlock_cellOf)
qed

lemma collideBlocks_cellOf:
  assumes w: "wf s" and i: "i < kMaxMarbles" and r: "r < 2" and k: "k < kNumBlocksPerRow"
  shows "(wf (collideBlocks i s) \<and> geom (collideBlocks i s) = geom s) \<and>
     cellOf (collideBlocks i s) r k =
       (if collides i r k s then hitCell (cellOf s r k) else cellOf s r k)"
proof -
  let ?I = "\<lambda>s'. wf s' \<and> geom s' = geom s"
  let ?g = "\<lambda>s'. cellOf s' r k"
  let ?h = "\<lambda>cb. if collides i r k s then hitCell cb else cb"
  note step = collideBlock_step [OF w i r k]
  have row_other: "?I (fold (collideBlock i row) [0..<kNumBlocksPerRow] s') \<and>
      ?g (fold (collideBlock i row) [0..<kNumBlocksPerRow] s') = ?g s'"
    if "row < 2" "row \<noteq> r" "?I s'" for row s'
  proof (rule fold_untouched [where I = ?I])
    show "?I s'" by (rule that)
    fix j s'' assume "j \<in> set [0..<kNumBlocksPerRow]" and "?I s''"
    then show "?I (collideBlock i row j s'') \<and> ?g (collideBlock i row j s'') = ?g s''"
      using step [of row j s''] that by simp
  qed
  have row_this: "?I (fold (collideBlock i r) [0..<kNumBlocksPerRow] s') \<and>
      ?g (fold (collideBlock i r) [0..<kNumBlocksPerRow] s') = ?h (?g s')"
    if "?I s'" for s'
  proof (rule fold_touch_once [where I = ?I, OF k])
    show "?I s'" by (rule that)
    fix j s'' assume "j < kNumBlocksPerRow" and "j \<noteq> k" and "?I s''"
    then show "?I (collideBlock i r j s'') \<and> ?g (collideBlock i r j s'') = ?g s''"
      using step [of r j s''] r by simp
  next
    fix s'' assume "?I s''"
    then show "?I (collideBlock i r k s'') \<and> ?g (collideBlock i r k s'') = ?h (?g s'')"
      using step [of r k s''] r k by simp
  qed
  have "?I (collideBlocks i s) \<and> ?g (collideBlocks i s) = ?h (?g s)"
    unfolding collideBlocks_def
  proof (rule fold_touch_once [where I = ?I, OF r])
    show "?I s" using w by simp
    fix row s' assume "row < 2" and "row \<noteq> r" and "?I s'"
    then show "?I (fold (collideBlock i row) [0..<kNumBlocksPerRow] s') \<and>
      ?g (fold (collideBlock i row) [0..<kNumBlocksPerRow] s') = ?g s'"
      by (rule row_other)
  next
    fix s' assume "?I s'"
    then show "?I (fold (collideBlock i r) [0..<kNumBlocksPerRow] s') \<and>
      ?g (fold (collideBlock i r) [0..<kNumBlocksPerRow] s') = ?h (?g s')"
      by (rule row_this)
  qed
  then show ?thesis by simp
qed

section \<open>The body of the marble loop\<close>

lemma move_simps [simp]:
  "active (move m) = active m"
  "visible (model (move m)) = visible (model m)"
  "posX (model (move m)) = posX (model m)"
  "posY (model (move m)) = posY (model m)"
  "posZ (model (move m)) = posZ (model m) + kMarbleSpeed"
  "skin (model (move m)) = skin (model m)"
  "model (move m) = MoveZ kMarbleSpeed (model m)"
  by (simp_all add: move_def MoveZ_def)

lemma collideBlocks_marbles_cases:
  "marbles (collideBlocks i s) = marbles s \<or>
   marbles (collideBlocks i s) = (marbles s)[i := deactivate (marbles s ! i)]"
proof -
  let ?P = "\<lambda>s'. marbles s' = marbles s \<or> marbles s' = (marbles s)[i := deactivate (marbles s ! i)]"
  have step: "?P (collideBlock i row j s')" if "?P s'" for row j s'
    using that
    by (cases "i < length (marbles s)") (auto simp: collideBlock_marbles list_update_beyond)
  show ?thesis
    unfolding collideBlocks_def
    by (rule fold_invariant [where P = ?P], simp, rule fold_invariant [where P = ?P])
       (simp_all add: step)
qed

lemma collideBlocks_fields [simp]:
  "gameOverText (collideBlocks i s) = gameOverText s"
  "currentState (collideBlocks i s) = currentState s"
  "running (collideBlocks i s) = running s"
proof -
  let ?P = "\<lambda>s'. gameOverText s' = gameOverText s \<and> currentState s' = currentState s \<and>
      running s' = running s"
  have "?P (collideBlocks i s)"
    unfolding collideBlocks_def
    by (rule fold_invariant [where P = ?P], simp, rule fold_invariant [where P = ?P]) simp_all
  then show "gameOverText (collideBlocks i s) = gameOverText s"
    "currentState (collideBlocks i s) = currentState s"
    "running (collideBlocks i s) = running s"
    by simp_all
qed

lemma collideBlocks_nohit:
  assumes "\<forall>r<2. \<forall>k<kNumBlocksPerRow. \<not> hits i r k s"
  shows "collideBlocks i s = s"
  unfolding collideBlocks_def
  by (rule fold_invariant [where P = "\<lambda>s'. s' = s"], simp, rule fold_invariant [where P = "\<lambda>s'. s' = s"])
     (use assms in \<open>simp_all add: collideBlock_alt\<close>)

lemma updateMarble_alt:
  assumes "wf s" and "i < kMaxMarbles"
  shows "updateMarble i s =
     (if active (marbles s ! i) then
        (if 30 < posZ (model (marbles s ! i)) + kMarbleSpeed
         then marble_upd i (\<lambda>m. deactivate (move m)) s
         else collideBlocks i (marble_upd i move s))
      else s)"
  using assms
  by (simp add: updateMarble_def Let_def wf_row_length GetZ_def marble_upd_twice
        deactivate_def [abs_def] move_def [abs_def] MoveZ_def)

lemma updateMarble_marbles_cases:
  assumes "wf s" and "i < kMaxMarbles"
  shows "(\<not> active (marbles s ! i) \<and> updateMarble i s = s) \<or>
     (active (marbles s ! i) \<and>
       (marbles (updateMarble i s) = (marbles s)[i := move (marbles s ! i)] \<or>
        marbles (updateMarble i s) = (marbles s)[i := deactivate (move (marbles s ! i))]))"
proof (cases "active (marbles s ! i)")
  case False
  with assms show ?thesis by (simp add: updateMarble_alt)
next
  case True
  have l: "i < length (marbles s)"
    using assms by (simp add: wf_row_length)
  show ?thesis
  proof (cases "30 < posZ (model (marbles s ! i)) + kMarbleSpeed")
    case True
    with \<open>active (marbles s ! i)\<close> assms show ?thesis by (simp add: updateMarble_alt)
  next
    case False
    with \<open>active (marbles s ! i)\<close> assms
    have "updateMarble i s = collideBlocks i (marble_upd i move s)"
      by (simp add: updateMarble_alt)
    with collideBlocks_marbles_cases [of i "marble_upd i move s"] l
      \<open>active (marbles s ! i)\<close>
    show ?thesis by auto
  qed
qed

lemma updateMarble_fields [simp]:
  "gameOverText (updateMarble i s) = gameOverText s"
  "currentState (updateMarble i s) = currentState s"
  "running (updateMarble i s) = running s"
  by (simp_all add: updateMarble_def Let_def)

lemma strikes_collides:
  assumes "wf s" and "i < kMaxMarbles"
  shows "strikes i r k s \<longleftrightarrow>
     active (marbles s ! i) \<and> \<not> 30 < posZ (model (marbles s ! i)) + kMarbleSpeed \<and>
     collides i r k (marble_upd i move s)"
  using assms by (simp add: strikes_def collides_def wf_row_length)

lemma cellOf_marble_upd [simp]: "cellOf (marble_upd i f s) r k = cellOf s r k"
  by (simp add: cellOf_def)

lemma geom_marble_upd [simp]: "snd (geom (marble_upd i f s)) = snd (geom s)"
  by (simp add: geom_def)

lemma updateMarble_cellOf:
  assumes w: "wf s" and i: "i < kMaxMarbles" and r: "r < 2" and k: "k < kNumBlocksPerRow"
  shows "cellOf (updateMarble i s) r k =
     (if strikes i r k s then hitCell (cellOf s r k) else cellOf s r k)"
proof -
  have w1: "wf (marble_upd i move s)" using w by simp
  show ?thesis
    using collideBlocks_cellOf [OF w1 i r k] w i
    by (simp add: updateMarble_alt strikes_collides)
qed

lemma updateMarble_geom:
  assumes w: "wf s" and i: "i < kMaxMarbles"
  shows "snd (geom (updateMarble i s)) = snd (geom s)"
proof -
  have w1: "wf (marble_upd i move s)" using w by simp
  have "0 < (2::nat)" and "0 < kNumBlocksPerRow" by (simp_all add: kNumBlocksPerRow_def)
  from collideBlocks_cellOf [OF w1 i this] show ?thesis
    using w i by (simp add: updateMarble_alt)
qed

lemma updateMarbles_unfold: "updateMarbles s = updateMarble 2 (updateMarble 1 (updateMarble 0 s))"
  by (simp add: updateMarbles_def kMaxMarbles_def upt_3)

section \<open>The win check\<close>

lemma allDead_row_unfold:
  "allDead_row row 0 s a =
     (if blockStates s ! row ! 0 \<noteq> DEAD then False
      else if blockStates s ! row ! 1 \<noteq> DEAD then False
      else if blockStates s ! row ! 2 \<noteq> DEAD then False
      else if blockStates s ! row ! 3 \<noteq> DEAD then False
      else if blockStates s ! row ! 4 \<noteq> DEAD then False
      else a)"
proof -
  have step: "allDead_row row j s a =
     (if j < 5 then (if blockStates s ! row ! j \<noteq> DEAD then False
                     else allDead_row row (Suc j) s a) else a)" for j
    by (subst allDead_row.simps) (simp add: kNumBlocksPerRow_def)
  show ?thesis
    by (simp add: step [of 0] step [of "Suc 0"] step [of "Suc (Suc 0)"]
          step [of "Suc (Suc (Suc 0))"] step [of "Suc (Suc (Suc (Suc 0)))"]
          step [of "Suc (Suc (Suc (Suc (Suc 0))))"] eval_nat_numeral)
qed

lemma allDead_iff:
  "allDead s \<longleftrightarrow> (\<forall>r<2. \<forall>k<kNumBlocksPerRow. blockStates s ! r ! k = DEAD)"
  by (simp add: allDead_def upt_2 allDead_row_unfold kNumBlocksPerRow_def eval_nat_numeral
        All_less_Suc)

lemma allDead_code:
  "allDead s \<longleftrightarrow> allDead_row 1 0 s (allDead_row 0 0 s True)"
  by (simp add: allDead_def upt_2)

lemmas eval_defs = Update_def UpdateGame_def ShootMarble_unfold updateMarbles_unfold updateMarble_def
  collideBlocks_def collideBlock_def upt_2 upt_3 upt_5 marble_upd_def block_upd_def blockState_set_def
  CheckCollision_half_grid onGrid_iff GetX_def GetZ_def MoveZ_def SetVisible_def SetSkin_def SetPosition_def CreateModel_def
  kMaxMarbles_def kNumBlocksPerRow_def kMarbleSpeed_def kBlockWidth_def Let_def activate_def
  SetupScene_def noKeys_def spaceKey_def allDead_code allDead_row_unfold

lemmas state_defs = twoMarblesInRange_def oneMarbleInRange_def allBlocksDead_def marbleAtEnd_def
  marbleAt_def idleMarble_def

lemma wf_states:
  "wf twoMarblesInRange" "wf oneMarbleInRange" "wf allBlocksDead" "wf marbleAtEnd"
  by (simp_all add: wf_def state_defs SetupScene_def kMaxMarbles_def kNumBlocksPerRow_def
        eval_nat_numeral)

section \<open>Invariants of the reachable states\<close>

lemma MoveZ_simps [simp]:
  "visible (MoveZ d m) = visible m"
  "posX (MoveZ d m) = posX m"
  "posY (MoveZ d m) = posY m"
  "posZ (MoveZ d m) = posZ m + d"
  "skin (MoveZ d m) = skin m"
  by (simp_all add: MoveZ_def)

lemma list_all_update: "list_all P xs \<Longrightarrow> P v \<Longrightarrow> list_all P (xs[i := v])"
  by (induction xs arbitrary: i) (auto split: nat.split)

lemma activeVisible_fields [simp]:
  "activeVisible (s\<lparr>currentState := p\<rparr>) = activeVisible s"
  "activeVisible (s\<lparr>gameOverText := g\<rparr>) = activeVisible s"
  "activeVisible (s\<lparr>running := r\<rparr>) = activeVisible s"
  by (simp_all add: activeVisible_def)

lemma deadHidden_fields [simp]:
  "deadHidden (s\<lparr>currentState := p\<rparr>) = deadHidden s"
  "deadHidden (s\<lparr>gameOverText := g\<rparr>) = deadHidden s"
  "deadHidden (s\<lparr>running := r\<rparr>) = deadHidden s"
  "deadHidden (marble_upd i f s) = deadHidden s"
  by (simp_all add: deadHidden_def)

lemma activeVisible_SetupScene: "activeVisible SetupScene"
  by (simp add: activeVisible_def SetupScene_def kMaxMarbles_def upt_3 SetVisible_def CreateModel_def)

lemma deadHidden_SetupScene: "deadHidden SetupScene"
  by (simp add: deadHidden_def SetupScene_def kNumBlocksPerRow_def)

lemma activeVisible_ShootMarble: "activeVisible s \<Longrightarrow> activeVisible (ShootMarble s)"
  by (simp add: ShootMarble_unfold activeVisible_def list_all_update activate_def)

lemma deadHidden_ShootMarble: "deadHidden (ShootMarble s) = deadHidden s"
  by (simp add: ShootMarble_unfold)

lemma activeVisible_updateMarble:
  assumes "wf s" and "i < kMaxMarbles" and "activeVisible s"
  shows "activeVisible (updateMarble i s)"
proof -
  from assms have "i < length (marbles s)" by (simp add: wf_row_length)
  with assms(3) have "active (marbles s ! i) \<longleftrightarrow> visible (model (marbles s ! i))"
    by (simp add: activeVisible_def list_all_length)
  with updateMarble_marbles_cases [OF assms(1,2)] assms(3) show ?thesis
    by (auto simp: activeVisible_def list_all_update)
qed

lemma deadHidden_updateMarble:
  assumes "wf s" and "i < kMaxMarbles" and "deadHidden s"
  shows "deadHidden (updateMarble i s)"
  unfolding deadHidden_def
proof (intro allI impI)
  fix r k assume r: "r < 2" and k: "k < kNumBlocksPerRow"
    and d: "blockStates (updateMarble i s) ! r ! k = DEAD"
  from assms(3) r k have old: "blockStates s ! r ! k = DEAD \<longrightarrow> \<not> visible (blocks s ! r ! k)"
    by (simp add: deadHidden_def)
  from updateMarble_cellOf [OF assms(1,2) r k] d old
  show "\<not> visible (blocks (updateMarble i s) ! r ! k)"
    by (cases "blockStates s ! r ! k")
       (auto simp: cellOf_def hitCell_def SetVisible_def split: if_splits)
qed

lemma activeVisible_updateMarbles:
  "wf s \<Longrightarrow> activeVisible s \<Longrightarrow> activeVisible (updateMarbles s)"
  by (simp add: updateMarbles_unfold activeVisible_updateMarble wf_updateMarble kMaxMarbles_def)

lemma deadHidden_updateMarbles:
  "wf s \<Longrightarrow> deadHidden s \<Longrightarrow> deadHidden (updateMarbles s)"
  by (simp add: updateMarbles_unfold deadHidden_updateMarble wf_updateMarble kMaxMarbles_def)

lemma RestartGame_invs:
  assumes "wf s" shows "activeVisible (RestartGame s)" and "deadHidden (RestartGame s)"
proof -
  from assms obtain m0 m1 m2 a0 a1 a2 a3 a4 b0 b1 b2 b3 b4 c0 c1 c2 c3 c4 d0 d1 d2 d3 d4
    where m: "marbles s = [m0, m1, m2]"
      and b: "blocks s = [[a0, a1, a2, a3, a4], [b0, b1, b2, b3, b4]]"
      and c: "blockStates s = [[c0, c1, c2, c3, c4], [d0, d1, d2, d3, d4]]"
    by (rule wf_explicit)
  note 1 = RestartGame_explicit [OF m b c]
  show "activeVisible (RestartGame s)"
    by (simp add: 1 activeVisible_def resetMarble_def SetVisible_def SetPosition_def)
  show "deadHidden (RestartGame s)"
    by (simp add: 1 deadHidden_def nth_replicate less_2_cases_iff)
qed

lemma invs_UpdateGame:
  assumes "wf s"
  shows "activeVisible s \<Longrightarrow> activeVisible (UpdateGame k s)"
    and "deadHidden s \<Longrightarrow> deadHidden (UpdateGame k s)"
  using assms
  by (simp_all add: UpdateGame_def Let_def activeVisible_ShootMarble activeVisible_updateMarbles
        deadHidden_ShootMarble deadHidden_updateMarbles RestartGame_invs wf_ShootMarble
        wf_updateMarbles)

lemma invs_Update:
  assumes "wf s"
  shows "activeVisible s \<Longrightarrow> activeVisible (Update k s)"
    and "deadHidden s \<Longrightarrow> deadHidden (Update k s)"
  using assms
  by (cases "currentState s"; simp add: Update_def Let_def invs_UpdateGame RestartGame_invs)+

lemma reachable_invs: "reachable s \<Longrightarrow> activeVisible s \<and> deadHidden s"
  by (induction rule: reachable.induct)
     (simp_all add: activeVisible_SetupScene deadHidden_SetupScene invs_Update reachable_wf)

section \<open>Block states only advance\<close>

lemma rank_nextState: "rank c \<le> rank (nextState c)"
  by (cases c) simp_all

lemma fields_RestartGame [simp]:
  "running (RestartGame s) = running s"
proof -
  let ?P = "\<lambda>s'. running s' = running s"
  have 1: "?P (fold RestartGame_marble [0..<kMaxMarbles] s)"
    by (rule fold_invariant [where P = ?P]) (simp_all add: RestartGame_marble_def Let_def)
  have "?P (fold (\<lambda>row. fold (RestartGame_block row) [0..<kNumBlocksPerRow]) [0..<2]
                 (fold RestartGame_marble [0..<kMaxMarbles] s))"
    by (rule fold_invariant [where P = ?P], rule 1, rule fold_invariant [where P = ?P])
       (simp_all add: RestartGame_block_def Let_def)
  then show ?thesis
    by (simp add: RestartGame_def Let_def)
qed

lemma ShootMarble_fields [simp]:
  "blocks (ShootMarble s) = blocks s"
  "blockStates (ShootMarble s) = blockStates s"
  "gameOverText (ShootMarble s) = gameOverText s"
  "currentState (ShootMarble s) = currentState s"
  "running (ShootMarble s) = running s"
  by (simp_all add: ShootMarble_unfold)

lemma updateMarbles_fields [simp]:
  "gameOverText (updateMarbles s) = gameOverText s"
  "currentState (updateMarbles s) = currentState s"
  "running (updateMarbles s) = running s"
  by (simp_all add: updateMarbles_unfold)

lemma running_UpdateGame [simp]: "running (UpdateGame k s) = running s"
  by (simp add: UpdateGame_def Let_def)

lemma running_Update:
  "running (Update k s) \<longleftrightarrow> running s \<and> \<not> (currentState s = OVER \<and> Key_Escape k)"
  by (cases "currentState s") (simp_all add: Update_def Let_def)

lemma running_fold_Update:
  "running s \<Longrightarrow> list_all (\<lambda>k. \<not> Key_Escape k) ks \<Longrightarrow> running (fold Update ks s)"
  by (induction ks arbitrary: s) (simp_all add: running_Update)

lemma reachable_fold_Update:
  "reachable s \<Longrightarrow> running s \<Longrightarrow> list_all (\<lambda>k. \<not> Key_Escape k) ks \<Longrightarrow>
   reachable (fold Update ks s)"
proof (induction ks arbitrary: s)
  case Nil
  then show ?case by simp
next
  case (Cons k ks)
  from Cons.prems have "reachable (Update k s)" and "running (Update k s)"
    by (simp_all add: reachable.reach_frame running_Update)
  with Cons show ?case by simp
qed

lemma updateMarble_blockState:
  assumes "wf s" and "i < kMaxMarbles" and "r < 2" and "k < kNumBlocksPerRow"
  shows "blockStates (updateMarble i s) ! r ! k =
     (if strikes i r k s then nextState (blockStates s ! r ! k) else blockStates s ! r ! k)"
  using arg_cong [OF updateMarble_cellOf [OF assms], of fst]
  by (simp add: cellOf_def hitCell_def)

lemma updateMarble_mono:
  assumes "wf s" and "i < kMaxMarbles" and "r < 2" and "k < kNumBlocksPerRow"
  shows "rank (blockStates s ! r ! k) \<le> rank (blockStates (updateMarble i s) ! r ! k)"
  by (simp add: updateMarble_blockState [OF assms] rank_nextState)

lemma updateMarbles_mono:
  assumes "wf s" and "r < 2" and "k < kNumBlocksPerRow"
  shows "rank (blockStates s ! r ! k) \<le> rank (blockStates (updateMarbles s) ! r ! k)"
proof -
  let ?s1 = "updateMarble 0 s"
  let ?s2 = "updateMarble 1 ?s1"
  have w1: "wf ?s1" and w2: "wf ?s2"
    using assms(1) by (simp_all add: wf_updateMarble)
  have "rank (blockStates s ! r ! k) \<le> rank (blockStates ?s1 ! r ! k)"
    using assms by (intro updateMarble_mono) (simp_all add: kMaxMarbles_def)
  also have "\<dots> \<le> rank (blockStates ?s2 ! r ! k)"
    using w1 assms by (intro updateMarble_mono) (simp_all add: kMaxMarbles_def)
  also have "\<dots> \<le> rank (blockStates (updateMarble 2 ?s2) ! r ! k)"
    using w2 assms by (intro updateMarble_mono) (simp_all add: kMaxMarbles_def)
  finally show ?thesis by (simp add: updateMarbles_unfold)
qed

lemma Update_mono:
  assumes "wf s" and "\<not> Key_0 k'" and "r < 2" and "k < kNumBlocksPerRow"
  shows "rank (blockStates s ! r ! k) \<le> rank (blockStates (Update k' s) ! r ! k)"
proof (cases "currentState s")
  case GAME
  have "rank (blockStates s ! r ! k) \<le> rank (blockStates (updateMarbles s) ! r ! k)"
    using assms by (intro updateMarbles_mono)
  moreover have "rank (blockStates (ShootMarble s) ! r ! k) \<le>
      rank (blockStates (updateMarbles (ShootMarble s)) ! r ! k)"
    using assms by (intro updateMarbles_mono) (simp_all add: wf_ShootMarble)
  ultimately show ?thesis
    using GAME assms(2) by (simp add: Update_def UpdateGame_def Let_def)
qed (use assms in \<open>simp_all add: Update_def\<close>)

lemma rank_DEAD: "rank DEAD \<le> rank c \<longleftrightarrow> c = DEAD"
  by (cases c) simp_all

section \<open>Runs from the scene after setup\<close>

lemma frames17:
  "fold Update (spaceKey # spaceKey # replicate 15 noKeys) SetupScene =
     SetupScene\<lparr>marbles := [\<lparr>model = \<lparr>posX = 0, posY = 0, posZ = 8, visible = True, skin = None\<rparr>,
                              active = True\<rparr>,
                            \<lparr>model = \<lparr>posX = 0, posY = 0, posZ = 0, visible = False, skin = None\<rparr>,
                              active = False\<rparr>,
                            \<lparr>model = \<lparr>posX = 0, posY = 0, posZ = 0, visible = False, skin = None\<rparr>,
                              active = False\<rparr>],
                 currentState := GAME\<rparr>"
  by (simp add: eval_defs eval_nat_numeral)

section \<open>One marble, two blocks\<close>

text \<open>
  C1 (does not hold of the code). The claim says that a marble changes the damage state of
  at most one block per frame. The block loops of \<open>UpdateGame\<close> deactivate the marble at
  its first hit but go on to the next block with the same marble, which then hits every
  other live block in range. In the run from the scene after setup, the start, one shot and
  fifteen idle frames leave marble 0 as the only active marble, with every block NORMAL;
  in the next idle frame it reaches z = 8.5, within range of the blocks \<open>(0, 2)\<close> and
  \<open>(0, 3)\<close> at x = -1 and x = 1, and both become HIT_ONCE in that one frame.
\<close>

theorem one_marble_two_blocks:
  "map active (marbles (fold Update (spaceKey # spaceKey # replicate 15 noKeys) SetupScene)) =
     [True, False, False] \<and>
   blockStates (fold Update (spaceKey # spaceKey # replicate 15 noKeys) SetupScene) =
     [[NORMAL, NORMAL, NORMAL, NORMAL, NORMAL], [NORMAL, NORMAL, NORMAL, NORMAL, NORMAL]] \<and>
   blockStates (Update noKeys (fold Update (spaceKey # spaceKey # replicate 15 noKeys) SetupScene)) =
     [[NORMAL, NORMAL, HIT_ONCE, HIT_ONCE, NORMAL], [NORMAL, NORMAL, NORMAL, NORMAL, NORMAL]]"
  unfolding frames17 by (simp add: eval_defs)

section \<open>Active marbles are the visible ones\<close>

text \<open>
  C8. In every reachable state the pool has its three marbles, and each of them is active
  exactly when its model is visible.
\<close>

theorem marble_active_iff_visible:
  assumes "reachable s"
  shows "length (marbles s) = kMaxMarbles \<and>
         (\<forall>i<kMaxMarbles. active (marbles s ! i) \<longleftrightarrow> visible (model (marbles s ! i)))"
  using reachable_invs [OF assms] reachable_wf [OF assms]
  by (simp add: activeVisible_def list_all_length wf_row_length)

text \<open>
  After the start and one shot, marble 0 is active and visible and marble 1 is neither.
\<close>

theorem marble_active_iff_visible_witness:
  "reachable (fold Update [spaceKey, spaceKey] SetupScene) \<and>
   active (marbles (fold Update [spaceKey, spaceKey] SetupScene) ! 0) \<and>
   visible (model (marbles (fold Update [spaceKey, spaceKey] SetupScene) ! 0)) \<and>
   \<not> active (marbles (fold Update [spaceKey, spaceKey] SetupScene) ! 1) \<and>
   \<not> visible (model (marbles (fold Update [spaceKey, spaceKey] SetupScene) ! 1))"
proof -
  let ?s = "fold Update [spaceKey, spaceKey] SetupScene"
  have r: "reachable ?s"
    by (rule reachable_fold_Update [OF reachable.reach_setup])
       (simp_all add: SetupScene_def spaceKey_def)
  have a: "active (marbles ?s ! 0)" "\<not> active (marbles ?s ! 1)"
    by (simp_all add: eval_defs)
  note t = marble_active_iff_visible [OF r]
  from t have 0: "active (marbles ?s ! 0) \<longleftrightarrow> visible (model (marbles ?s ! 0))"
    by (simp add: kMaxMarbles_def)
  from t have 1: "active (marbles ?s ! 1) \<longleftrightarrow> visible (model (marbles ?s ! 1))"
    by (simp add: kMaxMarbles_def)
  from 0 1 a r show ?thesis by simp
qed

section \<open>The damage of a block\<close>

text \<open>
  C6. One collision test of marble \<open>i\<close> with the block \<open>(r, k)\<close> leaves the state of the
  block as it is or advances it by one step of NORMAL, HIT_ONCE, DEAD; a DEAD block is
  never hit, the test changes nothing at all then. Over a whole frame in which the restart key
  was not hit the state of a block never goes back, and a DEAD block stays DEAD. In every
  reachable state a DEAD block is invisible.
\<close>

theorem block_state_monotone:
  assumes "wf s" and "i < kMaxMarbles" and "r < 2" and "k < kNumBlocksPerRow"
  shows "blockStates (collideBlock i r k s) ! r ! k =
           (if hits i r k s then nextState (blockStates s ! r ! k) else blockStates s ! r ! k) \<and>
         (blockStates s ! r ! k = DEAD \<longrightarrow> \<not> hits i r k s \<and> collideBlock i r k s = s) \<and>
         (\<not> Key_0 k' \<longrightarrow>
            rank (blockStates s ! r ! k) \<le> rank (blockStates (Update k' s) ! r ! k)) \<and>
         (\<not> Key_0 k' \<and> blockStates s ! r ! k = DEAD \<longrightarrow>
            blockStates (Update k' s) ! r ! k = DEAD) \<and>
         (reachable s \<and> blockStates s ! r ! k = DEAD \<longrightarrow> \<not> visible (blocks s ! r ! k))"
proof -
  have 1: "blockStates (collideBlock i r k s) ! r ! k =
      (if hits i r k s then nextState (blockStates s ! r ! k) else blockStates s ! r ! k)"
    using assms by (simp add: collideBlock_cell)
  have 2: "blockStates s ! r ! k = DEAD \<longrightarrow> \<not> hits i r k s \<and> collideBlock i r k s = s"
    by (simp add: hits_def collideBlock_alt)
  have 3: "\<not> Key_0 k' \<longrightarrow>
      rank (blockStates s ! r ! k) \<le> rank (blockStates (Update k' s) ! r ! k)"
    using assms by (simp add: Update_mono)
  have 4: "\<not> Key_0 k' \<and> blockStates s ! r ! k = DEAD \<longrightarrow>
      blockStates (Update k' s) ! r ! k = DEAD"
    using 3 rank_DEAD [of "blockStates (Update k' s) ! r ! k"] by auto
  have 5: "reachable s \<and> blockStates s ! r ! k = DEAD \<longrightarrow> \<not> visible (blocks s ! r ! k)"
    using reachable_invs [of s] assms by (auto simp: deadHidden_def)
  from 1 2 3 4 5 show ?thesis by blast
qed

text \<open>
  The start, two shots and sixteen idle frames: both marbles have hit the block
  \<open>(0, 2)\<close>, which is DEAD and invisible, is skipped by the collision test and is still
  DEAD after another frame.
\<close>

theorem block_state_monotone_witness:
  "blockStates (fold Update (spaceKey # spaceKey # spaceKey # replicate 16 noKeys) SetupScene) ! 0 ! 2
     = DEAD \<and>
   \<not> visible (blocks (fold Update (spaceKey # spaceKey # spaceKey # replicate 16 noKeys)
                  SetupScene) ! 0 ! 2) \<and>
   collideBlock 0 0 2 (fold Update (spaceKey # spaceKey # spaceKey # replicate 16 noKeys) SetupScene)
     = fold Update (spaceKey # spaceKey # spaceKey # replicate 16 noKeys) SetupScene \<and>
   blockStates (Update noKeys
      (fold Update (spaceKey # spaceKey # spaceKey # replicate 16 noKeys) SetupScene)) ! 0 ! 2 = DEAD"
proof -
  let ?s = "fold Update (spaceKey # spaceKey # spaceKey # replicate 16 noKeys) SetupScene"
  have r: "reachable ?s"
    by (rule reachable_fold_Update [OF reachable.reach_setup])
       (simp_all add: SetupScene_def spaceKey_def noKeys_def list_all_iff)
  have d: "blockStates ?s ! 0 ! 2 = DEAD"
    by (simp add: eval_defs eval_nat_numeral)
  from block_state_monotone [OF reachable_wf [OF r], of 0 0 2 noKeys] r d show ?thesis
    by (simp add: kMaxMarbles_def kNumBlocksPerRow_def noKeys_def)
qed

section \<open>The restart\<close>

text \<open>
  C7. From every reachable state, \<open>RestartGame\<close> leaves all ten blocks NORMAL, visible
  and at the positions \<open>SetupScene\<close> gave them, all three marbles inactive and
  invisible, and the phase GAME; calling it a second time gives exactly the same state.
\<close>

theorem RestartGame_reset:
  assumes "reachable s"
  shows "blockStates (RestartGame s) = replicate 2 (replicate kNumBlocksPerRow NORMAL) \<and>
         list_all (list_all visible) (blocks (RestartGame s)) \<and>
         map (map (\<lambda>b. (posX b, posY b, posZ b))) (blocks (RestartGame s)) =
           map (map (\<lambda>b. (posX b, posY b, posZ b))) (blocks SetupScene) \<and>
         length (marbles (RestartGame s)) = kMaxMarbles \<and>
         list_all (\<lambda>m. \<not> active m \<and> \<not> visible (model m)) (marbles (RestartGame s)) \<and>
         currentState (RestartGame s) = GAME \<and>
         RestartGame (RestartGame s) = RestartGame s"
proof -
  from assms have w: "wf s" by (rule reachable_wf)
  then obtain m0 m1 m2 a0 a1 a2 a3 a4 b0 b1 b2 b3 b4 c0 c1 c2 c3 c4 d0 d1 d2 d3 d4
    where m: "marbles s = [m0, m1, m2]"
      and b: "blocks s = [[a0, a1, a2, a3, a4], [b0, b1, b2, b3, b4]]"
      and c: "blockStates s = [[c0, c1, c2, c3, c4], [d0, d1, d2, d3, d4]]"
    by (rule wf_explicit)
  note 1 = RestartGame_explicit [OF m b c]
  have "blockStates (RestartGame s) = replicate 2 (replicate kNumBlocksPerRow NORMAL)"
    by (simp add: 1)
  moreover have "list_all (list_all visible) (blocks (RestartGame s))"
    by (simp add: 1 resetBlock_def SetVisible_def)
  moreover have "map (map (\<lambda>b. (posX b, posY b, posZ b))) (blocks (RestartGame s)) =
           map (map (\<lambda>b. (posX b, posY b, posZ b))) (blocks SetupScene)"
    by (simp add: 1 resetBlock_def SetVisible_def SetSkin_def SetPosition_def SetupScene_def
          CreateModel_def kNumBlocksPerRow_def upt_2 upt_5)
  moreover have "length (marbles (RestartGame s)) = kMaxMarbles"
    by (simp add: 1 kMaxMarbles_def)
  moreover have "list_all (\<lambda>m. \<not> active m \<and> \<not> visible (model m)) (marbles (RestartGame s))"
    by (simp add: 1 resetMarble_def SetVisible_def SetPosition_def)
  moreover have "currentState (RestartGame s) = GAME"
    by (simp add: 1)
  moreover have "RestartGame (RestartGame s) = RestartGame s"
    using w by (rule RestartGame_idem)
  ultimately show ?thesis by blast
qed

text \<open>
  The state after the start and one shot is reachable; restarting it resets the blocks and
  the phase, and restarting twice is restarting once.
\<close>

theorem RestartGame_reset_witness:
  "reachable (fold Update [spaceKey, spaceKey] SetupScene) \<and>
   blockStates (RestartGame (fold Update [spaceKey, spaceKey] SetupScene)) =
     [[NORMAL, NORMAL, NORMAL, NORMAL, NORMAL], [NORMAL, NORMAL, NORMAL, NORMAL, NORMAL]] \<and>
   currentState (RestartGame (fold Update [spaceKey, spaceKey] SetupScene)) = GAME \<and>
   RestartGame (RestartGame (fold Update [spaceKey, spaceKey] SetupScene)) =
     RestartGame (fold Update [spaceKey, spaceKey] SetupScene)"
proof -
  have r: "reachable (fold Update [spaceKey, spaceKey] SetupScene)"
    by (rule reachable_fold_Update [OF reachable.reach_setup])
       (simp_all add: SetupScene_def spaceKey_def)
  from RestartGame_reset [OF r] r show ?thesis
    by (simp add: kNumBlocksPerRow_def eval_nat_numeral)
qed

section \<open>A marble in the marble loop\<close>

lemma CheckCollision_cong:
  "posX b = posX b' \<Longrightarrow> posZ b = posZ b' \<Longrightarrow> CheckCollision m b r = CheckCollision m b' r"
  by (simp add: CheckCollision_def GetX_def GetZ_def)

lemma block_pos_geom:
  assumes "snd (geom s') = snd (geom s)" and "wf s" and "r < 2" and "k < kNumBlocksPerRow"
  shows "posX (blocks s' ! r ! k) = posX (blocks s ! r ! k)"
    and "posZ (blocks s' ! r ! k) = posZ (blocks s ! r ! k)"
proof -
  from assms(1) have b: "map (map (\<lambda>b. (posX b, posZ b))) (blocks s') =
      map (map (\<lambda>b. (posX b, posZ b))) (blocks s)"
    by (simp add: geom_def)
  from assms have "r < length (blocks s)" and "k < length (blocks s ! r)"
    by (simp_all add: wf_row_length)
  with b have "(posX (blocks s' ! r ! k), posZ (blocks s' ! r ! k)) =
      (posX (blocks s ! r ! k), posZ (blocks s ! r ! k))"
    by (rule map_map_eq_nth)
  then show "posX (blocks s' ! r ! k) = posX (blocks s ! r ! k)"
    and "posZ (blocks s' ! r ! k) = posZ (blocks s ! r ! k)"
    by simp_all
qed

lemma later_refl: "wf s \<Longrightarrow> later s s"
  by (simp add: later_def)

lemma later_updateMarble:
  assumes "later s s'" and "i < kMaxMarbles"
  shows "later s (updateMarble i s')"
  using assms
  by (auto simp: later_def wf_updateMarble updateMarble_geom updateMarble_blockState)

lemma updateMarble_other:
  assumes "wf s" and "i < kMaxMarbles" and "i' \<noteq> i"
  shows "marbles (updateMarble i s) ! i' = marbles s ! i'"
  using updateMarble_marbles_cases [OF assms(1,2)] assms(3) by auto

lemma updateMarbles_turn:
  assumes "wf s" and "i < kMaxMarbles"
  obtains s' where "later s s'" and "marbles s' ! i = marbles s ! i"
    and "marbles (updateMarbles s) ! i = marbles (updateMarble i s') ! i"
proof -
  let ?s1 = "updateMarble 0 s"
  let ?s2 = "updateMarble 1 ?s1"
  have l0: "later s s" using assms(1) by (rule later_refl)
  have l1: "later s ?s1" using l0 by (rule later_updateMarble) (simp add: kMaxMarbles_def)
  have l2: "later s ?s2" using l1 by (rule later_updateMarble) (simp add: kMaxMarbles_def)
  have w1: "wf ?s1" and w2: "wf ?s2" using l1 l2 by (simp_all add: later_def)
  from assms(2) have "i = 0 \<or> i = 1 \<or> i = 2"
    unfolding kMaxMarbles_def by arith
  then consider "i = 0" | "i = 1" | "i = 2"
    by blast
  then show ?thesis
  proof cases
    case 1
    have "marbles (updateMarbles s) ! 0 = marbles ?s1 ! 0"
      using w1 w2 by (simp add: updateMarbles_unfold updateMarble_other kMaxMarbles_def)
    with 1 l0 show ?thesis by (intro that [of s]) simp_all
  next
    case 2
    have "marbles (updateMarbles s) ! 1 = marbles ?s2 ! 1"
      using w2 by (simp add: updateMarbles_unfold updateMarble_other kMaxMarbles_def)
    moreover have "marbles ?s1 ! 1 = marbles s ! 1"
      using assms(1) by (simp add: updateMarble_other kMaxMarbles_def)
    ultimately show ?thesis using 2 l1 by (intro that [of ?s1]) simp_all
  next
    case 3
    have "marbles ?s2 ! 2 = marbles s ! 2"
      using assms(1) w1 by (simp add: updateMarble_other kMaxMarbles_def)
    with 3 l2 show ?thesis by (intro that [of ?s2]) (simp_all add: updateMarbles_unfold)
  qed
qed

lemma updateMarble_self:
  assumes "wf s" and "i < kMaxMarbles" and "active (marbles s ! i)"
  shows "posX (model (marbles (updateMarble i s) ! i)) = posX (model (marbles s ! i))"
    and "posY (model (marbles (updateMarble i s) ! i)) = posY (model (marbles s ! i))"
    and "posZ (model (marbles (updateMarble i s) ! i)) = posZ (model (marbles s ! i)) + kMarbleSpeed"
    and "30 < posZ (model (marbles s ! i)) + kMarbleSpeed \<Longrightarrow>
           updateMarble i s = marble_upd i (\<lambda>m. deactivate (move m)) s"
    and "\<not> 30 < posZ (model (marbles s ! i)) + kMarbleSpeed \<Longrightarrow>
         \<forall>r<2. \<forall>k<kNumBlocksPerRow. blockStates s ! r ! k = DEAD \<or>
           \<not> CheckCollision (MoveZ kMarbleSpeed (model (marbles s ! i))) (blocks s ! r ! k) 1 \<Longrightarrow>
         updateMarble i s = marble_upd i move s"
proof -
  have l: "i < length (marbles s)" using assms by (simp add: wf_row_length)
  note c = updateMarble_marbles_cases [OF assms(1,2)]
  from c l assms(3)
  show "posX (model (marbles (updateMarble i s) ! i)) = posX (model (marbles s ! i))"
    and "posY (model (marbles (updateMarble i s) ! i)) = posY (model (marbles s ! i))"
    and "posZ (model (marbles (updateMarble i s) ! i)) = posZ (model (marbles s ! i)) + kMarbleSpeed"
    by auto
  show "updateMarble i s = marble_upd i (\<lambda>m. deactivate (move m)) s"
    if "30 < posZ (model (marbles s ! i)) + kMarbleSpeed"
    using that assms by (simp add: updateMarble_alt)
  show "updateMarble i s = marble_upd i move s"
    if "\<not> 30 < posZ (model (marbles s ! i)) + kMarbleSpeed"
      and "\<forall>r<2. \<forall>k<kNumBlocksPerRow. blockStates s ! r ! k = DEAD \<or>
           \<not> CheckCollision (MoveZ kMarbleSpeed (model (marbles s ! i))) (blocks s ! r ! k) 1"
  proof -
    have "\<forall>r<2. \<forall>k<kNumBlocksPerRow. \<not> hits i r k (marble_upd i move s)"
      using that(2) l by (simp add: hits_def)
    then have "collideBlocks i (marble_upd i move s) = marble_upd i move s"
      by (rule collideBlocks_nohit)
    with that(1) assms show ?thesis by (simp add: updateMarble_alt)
  qed
qed

lemma ShootMarble_active_same:
  assumes "wf s" and "i < kMaxMarbles" and "active (marbles s ! i)"
  shows "marbles (ShootMarble s) ! i = marbles s ! i"
proof -
  from assms(2) have "i = 0 \<or> i = 1 \<or> i = 2"
    unfolding kMaxMarbles_def by arith
  with assms(3) show ?thesis
    by (auto simp: ShootMarble_unfold nth_list_update)
qed

lemma updateMarbles_self:
  assumes w: "wf s" and i: "i < kMaxMarbles" and a: "active (marbles s ! i)"
  shows "posZ (model (marbles (updateMarbles s) ! i)) = posZ (model (marbles s ! i)) + kMarbleSpeed"
    and "30 < posZ (model (marbles s ! i)) + kMarbleSpeed \<Longrightarrow>
           \<not> active (marbles (updateMarbles s) ! i) \<and>
           \<not> visible (model (marbles (updateMarbles s) ! i))"
    and "\<not> 30 < posZ (model (marbles s ! i)) + kMarbleSpeed \<Longrightarrow>
         \<forall>r<2. \<forall>k<kNumBlocksPerRow. blockStates s ! r ! k = DEAD \<or>
           \<not> CheckCollision (MoveZ kMarbleSpeed (model (marbles s ! i))) (blocks s ! r ! k) 1 \<Longrightarrow>
         active (marbles (updateMarbles s) ! i) \<and>
         visible (model (marbles (updateMarbles s) ! i)) = visible (model (marbles s ! i))"
proof -
  from w i obtain s' where l: "later s s'" and m: "marbles s' ! i = marbles s ! i"
    and u: "marbles (updateMarbles s) ! i = marbles (updateMarble i s') ! i"
    by (rule updateMarbles_turn)
  from l have w': "wf s'" by (simp add: later_def)
  have a': "active (marbles s' ! i)" using a m by simp
  have len: "i < length (marbles s')" using w' i by (simp add: wf_row_length)
  show "posZ (model (marbles (updateMarbles s) ! i)) = posZ (model (marbles s ! i)) + kMarbleSpeed"
    using updateMarble_self(3) [OF w' i a'] u m by simp
  show "\<not> active (marbles (updateMarbles s) ! i) \<and>
      \<not> visible (model (marbles (updateMarbles s) ! i))"
    if "30 < posZ (model (marbles s ! i)) + kMarbleSpeed"
    using updateMarble_self(4) [OF w' i a'] that u m len by simp
  show "active (marbles (updateMarbles s) ! i) \<and>
      visible (model (marbles (updateMarbles s) ! i)) = visible (model (marbles s ! i))"
    if o: "\<not> 30 < posZ (model (marbles s ! i)) + kMarbleSpeed"
      and f: "\<forall>r<2. \<forall>k<kNumBlocksPerRow. blockStates s ! r ! k = DEAD \<or>
           \<not> CheckCollision (MoveZ kMarbleSpeed (model (marbles s ! i))) (blocks s ! r ! k) 1"
  proof -
    have "\<forall>r<2. \<forall>k<kNumBlocksPerRow. blockStates s' ! r ! k = DEAD \<or>
           \<not> CheckCollision (MoveZ kMarbleSpeed (model (marbles s' ! i))) (blocks s' ! r ! k) 1"
    proof (intro allI impI)
      fix r k :: nat assume r: "r < 2" and k: "k < kNumBlocksPerRow"
      from l have g: "snd (geom s') = snd (geom s)" by (simp add: later_def)
      have "CheckCollision (MoveZ kMarbleSpeed (model (marbles s' ! i))) (blocks s' ! r ! k) 1 =
          CheckCollision (MoveZ kMarbleSpeed (model (marbles s ! i))) (blocks s ! r ! k) 1"
        unfolding m by (rule CheckCollision_cong) (rule block_pos_geom [OF g w r k])+
      with f r k l
      show "blockStates s' ! r ! k = DEAD \<or>
           \<not> CheckCollision (MoveZ kMarbleSpeed (model (marbles s' ! i))) (blocks s' ! r ! k) 1"
        by (auto simp: later_def)
    qed
    with updateMarble_self(5) [OF w' i a'] o m
    have "updateMarble i s' = marble_upd i move s'" by simp
    with u m a len show ?thesis by simp
  qed
qed

section \<open>The advance of a marble\<close>

text \<open>
  C4. In the marble loop of a GAME frame every active marble moves forward by
  \<open>kMarbleSpeed\<close>, which strictly increases its z position. When the new position
  exceeds 30 the marble is deactivated and hidden, and this branch of the loop body leaves
  every block and every block state as it was. When it does not exceed 30 and no live block
  is within range of the moved marble, the marble stays active and keeps its visibility:
  inside the bounds only a collision deactivates it. The position and the out-of-bounds
  rule are the same for the whole frame when the restart key was not hit.
\<close>

theorem marble_advance:
  assumes "wf s" and "i < kMaxMarbles" and "active (marbles s ! i)"
  shows "posZ (model (marbles (updateMarbles s) ! i)) = posZ (model (marbles s ! i)) + kMarbleSpeed \<and>
         posZ (model (marbles s ! i)) < posZ (model (marbles (updateMarbles s) ! i)) \<and>
         (30 < posZ (model (marbles (updateMarbles s) ! i)) \<longrightarrow>
            \<not> active (marbles (updateMarbles s) ! i) \<and>
            \<not> visible (model (marbles (updateMarbles s) ! i)) \<and>
            blockStates (updateMarble i s) = blockStates s \<and> blocks (updateMarble i s) = blocks s) \<and>
         (\<not> 30 < posZ (model (marbles (updateMarbles s) ! i)) \<and>
          (\<forall>r<2. \<forall>k<kNumBlocksPerRow. blockStates s ! r ! k = DEAD \<or>
             \<not> CheckCollision (MoveZ kMarbleSpeed (model (marbles s ! i))) (blocks s ! r ! k) 1) \<longrightarrow>
            active (marbles (updateMarbles s) ! i) \<and>
            visible (model (marbles (updateMarbles s) ! i)) = visible (model (marbles s ! i))) \<and>
         (currentState s = GAME \<and> \<not> Key_0 k \<longrightarrow>
            posZ (model (marbles (Update k s) ! i)) = posZ (model (marbles s ! i)) + kMarbleSpeed \<and>
            (30 < posZ (model (marbles (Update k s) ! i)) \<longrightarrow>
               \<not> active (marbles (Update k s) ! i) \<and> \<not> visible (model (marbles (Update k s) ! i))))"
proof -
  note u = updateMarbles_self [OF assms]
  have 1: "posZ (model (marbles (updateMarbles s) ! i)) = posZ (model (marbles s ! i)) + kMarbleSpeed"
    by (rule u(1))
  have 2: "posZ (model (marbles s ! i)) < posZ (model (marbles (updateMarbles s) ! i))"
    by (simp add: 1 kMarbleSpeed_def)
  have 3: "30 < posZ (model (marbles (updateMarbles s) ! i)) \<longrightarrow>
            \<not> active (marbles (updateMarbles s) ! i) \<and>
            \<not> visible (model (marbles (updateMarbles s) ! i)) \<and>
            blockStates (updateMarble i s) = blockStates s \<and> blocks (updateMarble i s) = blocks s"
    using u(2) updateMarble_self(4) [OF assms] by (simp add: 1)
  have 4: "\<not> 30 < posZ (model (marbles (updateMarbles s) ! i)) \<and>
          (\<forall>r<2. \<forall>k<kNumBlocksPerRow. blockStates s ! r ! k = DEAD \<or>
             \<not> CheckCollision (MoveZ kMarbleSpeed (model (marbles s ! i))) (blocks s ! r ! k) 1) \<longrightarrow>
            active (marbles (updateMarbles s) ! i) \<and>
            visible (model (marbles (updateMarbles s) ! i)) = visible (model (marbles s ! i))"
    using u(3) by (simp add: 1)
  have 5: "posZ (model (marbles (Update k s) ! i)) = posZ (model (marbles s ! i)) + kMarbleSpeed \<and>
            (30 < posZ (model (marbles (Update k s) ! i)) \<longrightarrow>
               \<not> active (marbles (Update k s) ! i) \<and> \<not> visible (model (marbles (Update k s) ! i)))"
    if g: "currentState s = GAME" and n: "\<not> Key_0 k"
  proof -
    let ?s1 = "if Key_Space k then ShootMarble s else s"
    have w1: "wf ?s1" using assms(1) by (simp add: wf_ShootMarble)
    have m1: "marbles ?s1 ! i = marbles s ! i"
      using assms by (simp add: ShootMarble_active_same)
    have a1: "active (marbles ?s1 ! i)" using assms(3) m1 by simp
    have "marbles (Update k s) = marbles (updateMarbles ?s1)"
      using g n by (simp add: Update_def UpdateGame_def Let_def)
    with updateMarbles_self(1,2) [OF w1 assms(2) a1] m1 show ?thesis
      by simp
  qed
  from 1 2 3 4 5 show ?thesis by blast
qed

text \<open>
  A marble at z = 30 moves to 30.5 and is taken out by the out-of-bounds rule, with no
  block state changed; a marble at z = 2 moves to 2.5 and stays active.
\<close>

theorem marble_advance_witness:
  "posZ (model (marbles (updateMarbles marbleAtEnd) ! 0)) = 61 / 2 \<and>
   \<not> active (marbles (updateMarbles marbleAtEnd) ! 0) \<and>
   \<not> visible (model (marbles (updateMarbles marbleAtEnd) ! 0)) \<and>
   blockStates (updateMarble 0 marbleAtEnd) = blockStates marbleAtEnd \<and>
   posZ (model (marbles (updateMarbles marbleAtEnd) ! 1)) = 5 / 2 \<and>
   active (marbles (updateMarbles marbleAtEnd) ! 1) \<and>
   posZ (model (marbles (Update noKeys marbleAtEnd) ! 0)) = 61 / 2 \<and>
   \<not> active (marbles (Update noKeys marbleAtEnd) ! 0)"
proof -
  have a: "active (marbles marbleAtEnd ! 0)" "active (marbles marbleAtEnd ! 1)"
    "posZ (model (marbles marbleAtEnd ! 0)) = 30" "posZ (model (marbles marbleAtEnd ! 1)) = 2"
    "currentState marbleAtEnd = GAME"
    by (simp_all add: state_defs)
  have f: "\<forall>r<2. \<forall>k<kNumBlocksPerRow. blockStates marbleAtEnd ! r ! k = DEAD \<or>
      \<not> CheckCollision (MoveZ kMarbleSpeed (model (marbles marbleAtEnd ! 1)))
          (blocks marbleAtEnd ! r ! k) 1"
    by (simp add: state_defs eval_defs eval_nat_numeral All_less_Suc)
  have 0: "posZ (model (marbles (updateMarbles marbleAtEnd) ! 0)) = 61 / 2 \<and>
     \<not> active (marbles (updateMarbles marbleAtEnd) ! 0) \<and>
     \<not> visible (model (marbles (updateMarbles marbleAtEnd) ! 0)) \<and>
     blockStates (updateMarble 0 marbleAtEnd) = blockStates marbleAtEnd \<and>
     posZ (model (marbles (Update noKeys marbleAtEnd) ! 0)) = 61 / 2 \<and>
     \<not> active (marbles (Update noKeys marbleAtEnd) ! 0)"
    using marble_advance [OF wf_states(4) _ a(1), of noKeys] a(3,5)
    by (simp add: kMaxMarbles_def kMarbleSpeed_def noKeys_def)
  have 1: "posZ (model (marbles (updateMarbles marbleAtEnd) ! 1)) = 5 / 2 \<and>
     active (marbles (updateMarbles marbleAtEnd) ! 1)"
    using marble_advance [OF wf_states(4) _ a(2), of noKeys] a(4) f
    by (simp add: kMaxMarbles_def kMarbleSpeed_def)
  from 0 1 show ?thesis by simp
qed

section \<open>Counting the strikes on a block\<close>

lemma strikes_later:
  assumes "later s s'" and "marbles s' ! i = marbles s ! i" and "wf s" and "r < 2"
    and "k < kNumBlocksPerRow"
  shows "strikes i r k s' = strikes i r k s"
proof -
  from assms(1) have g: "snd (geom s') = snd (geom s)" by (simp add: later_def)
  have "CheckCollision (MoveZ kMarbleSpeed (model (marbles s ! i))) (blocks s' ! r ! k) 1 =
      CheckCollision (MoveZ kMarbleSpeed (model (marbles s ! i))) (blocks s ! r ! k) 1"
    by (rule CheckCollision_cong) (rule block_pos_geom [OF g assms(3,4,5)])+
  then show ?thesis by (simp add: strikes_def assms(2))
qed

lemma nextState_funpow:
  "(nextState ^^ n) NORMAL = (if n = 0 then NORMAL else if n = 1 then HIT_ONCE else DEAD)"
  by (induction n) auto

lemma nextState_funpow_DEAD: "(nextState ^^ n) DEAD = DEAD"
  by (induction n) auto

lemma updateMarbles_blockState:
  assumes w: "wf s" and r: "r < 2" and k: "k < kNumBlocksPerRow"
  shows "blockStates (updateMarbles s) ! r ! k =
     (nextState ^^ strikeCount r k s) (blockStates s ! r ! k)"
proof -
  let ?s1 = "updateMarble 0 s"
  let ?s2 = "updateMarble 1 ?s1"
  have l0: "later s s" using w by (rule later_refl)
  have l1: "later s ?s1" using l0 by (rule later_updateMarble) (simp add: kMaxMarbles_def)
  have l2: "later s ?s2" using l1 by (rule later_updateMarble) (simp add: kMaxMarbles_def)
  have w1: "wf ?s1" and w2: "wf ?s2" using l1 l2 by (simp_all add: later_def)
  have m1: "marbles ?s1 ! 1 = marbles s ! 1"
    using w by (simp add: updateMarble_other kMaxMarbles_def)
  have m2: "marbles ?s2 ! 2 = marbles s ! 2"
    using w w1 by (simp add: updateMarble_other kMaxMarbles_def)
  have s1: "strikes 1 r k ?s1 = strikes 1 r k s"
    using l1 m1 w r k by (rule strikes_later)
  have s2: "strikes 2 r k ?s2 = strikes 2 r k s"
    using l2 m2 w r k by (rule strikes_later)
  have c1: "blockStates ?s1 ! r ! k =
      (if strikes 0 r k s then nextState (blockStates s ! r ! k) else blockStates s ! r ! k)"
    using updateMarble_blockState [OF w _ r k, of 0] by (simp add: kMaxMarbles_def)
  have c2: "blockStates ?s2 ! r ! k =
      (if strikes 1 r k s then nextState (blockStates ?s1 ! r ! k) else blockStates ?s1 ! r ! k)"
    using updateMarble_blockState [OF w1 _ r k, of 1] s1 by (simp add: kMaxMarbles_def)
  have c3: "blockStates (updateMarble 2 ?s2) ! r ! k =
      (if strikes 2 r k s then nextState (blockStates ?s2 ! r ! k) else blockStates ?s2 ! r ! k)"
    using updateMarble_blockState [OF w2 _ r k, of 2] s2 by (simp add: kMaxMarbles_def)
  show ?thesis
    unfolding updateMarbles_unfold c3 c2 c1
    by (simp add: strikeCount_def kMaxMarbles_def upt_3)
qed

section \<open>The phase after a GAME frame\<close>

lemma currentState_RestartGame [simp]: "currentState (RestartGame s) = GAME"
  by (simp add: RestartGame_def Let_def)

lemma blockStates_RestartGame:
  assumes "wf s"
  shows "blockStates (RestartGame s) = replicate 2 (replicate kNumBlocksPerRow NORMAL)"
proof -
  from assms obtain m0 m1 m2 a0 a1 a2 a3 a4 b0 b1 b2 b3 b4 c0 c1 c2 c3 c4 d0 d1 d2 d3 d4
    where m: "marbles s = [m0, m1, m2]"
      and b: "blocks s = [[a0, a1, a2, a3, a4], [b0, b1, b2, b3, b4]]"
      and c: "blockStates s = [[c0, c1, c2, c3, c4], [d0, d1, d2, d3, d4]]"
    by (rule wf_explicit)
  show ?thesis by (simp add: RestartGame_explicit [OF m b c])
qed

lemma not_allDead_RestartGame: "wf s \<Longrightarrow> \<not> allDead (RestartGame s)"
  by (auto simp: allDead_iff blockStates_RestartGame kNumBlocksPerRow_def
        intro!: exI [of _ 0])

lemma UpdateGame_phase:
  assumes "currentState s = GAME"
  shows "currentState (UpdateGame k s) =
     (if \<forall>r<2. \<forall>j<kNumBlocksPerRow. blockStates (UpdateGame k s) ! r ! j = DEAD
      then OVER else GAME)"
  using assms by (simp add: UpdateGame_def Let_def allDead_iff)

lemma UpdateGame_restart:
  assumes "wf s" and "Key_0 k"
  shows "currentState (UpdateGame k s) = GAME"
  using assms
  by (simp add: UpdateGame_def Let_def not_allDead_RestartGame wf_updateMarbles wf_ShootMarble)

lemma UpdateGame_blockStates:
  assumes "wf s" and "\<not> Key_0 k" and "r < 2" and "j < kNumBlocksPerRow"
  shows "blockStates (UpdateGame k s) ! r ! j =
     (nextState ^^ strikeCount r j (if Key_Space k then ShootMarble s else s))
       (blockStates s ! r ! j)"
proof -
  let ?s1 = "if Key_Space k then ShootMarble s else s"
  have w1: "wf ?s1" using assms(1) by (simp add: wf_ShootMarble)
  have "blockStates (UpdateGame k s) = blockStates (updateMarbles ?s1)"
    using assms(2) by (simp add: UpdateGame_def Let_def)
  with updateMarbles_blockState [OF w1 assms(3,4)] show ?thesis
    by simp
qed

section \<open>The win condition\<close>

text \<open>
  C2 (amended). After a frame in the GAME phase the phase is OVER when all ten block
  states are DEAD at the end of the frame, after hit processing and restart, and GAME
  otherwise. From a state with all ten blocks DEAD the phase becomes OVER unless the
  restart key was hit in that frame; then the blocks are reset and the phase stays GAME.
  From a state with nine blocks DEAD and one NORMAL the phase stays GAME unless the
  restart key was not hit and at least two marbles, counting one shot in that frame,
  strike the NORMAL block in the frame, which takes it to DEAD.
\<close>

theorem win_condition:
  assumes "wf s" and "currentState s = GAME"
  shows "currentState (Update k s) =
           (if \<forall>r<2. \<forall>j<kNumBlocksPerRow. blockStates (Update k s) ! r ! j = DEAD
            then OVER else GAME) \<and>
         ((\<forall>r<2. \<forall>j<kNumBlocksPerRow. blockStates s ! r ! j = DEAD) \<longrightarrow>
            currentState (Update k s) = (if Key_0 k then GAME else OVER)) \<and>
         (r0 < 2 \<and> j0 < kNumBlocksPerRow \<and> blockStates s ! r0 ! j0 = NORMAL \<and>
          (\<forall>r<2. \<forall>j<kNumBlocksPerRow. (r, j) \<noteq> (r0, j0) \<longrightarrow> blockStates s ! r ! j = DEAD) \<longrightarrow>
            currentState (Update k s) =
              (if \<not> Key_0 k \<and> 2 \<le> strikeCount r0 j0 (if Key_Space k then ShootMarble s else s)
               then OVER else GAME))"
proof -
  have U: "Update k s = UpdateGame k s"
    using assms(2) by (simp add: Update_def)
  note ph = UpdateGame_phase [OF assms(2), of k]
  have 1: "currentState (Update k s) =
      (if \<forall>r<2. \<forall>j<kNumBlocksPerRow. blockStates (Update k s) ! r ! j = DEAD
       then OVER else GAME)"
    unfolding U by (rule ph)
  have 2: "currentState (Update k s) = (if Key_0 k then GAME else OVER)"
    if d: "\<forall>r<2. \<forall>j<kNumBlocksPerRow. blockStates s ! r ! j = DEAD"
  proof (cases "Key_0 k")
    case True
    with UpdateGame_restart [OF assms(1)] show ?thesis by (simp add: U)
  next
    case False
    have "\<forall>r<2. \<forall>j<kNumBlocksPerRow. blockStates (UpdateGame k s) ! r ! j = DEAD"
      using False d by (simp add: UpdateGame_blockStates [OF assms(1)] nextState_funpow_DEAD)
    with ph False show ?thesis
      unfolding U by simp
  qed
  have 3: "currentState (Update k s) =
      (if \<not> Key_0 k \<and> 2 \<le> strikeCount r0 j0 (if Key_Space k then ShootMarble s else s)
       then OVER else GAME)"
    if r0: "r0 < 2" and j0: "j0 < kNumBlocksPerRow" and n: "blockStates s ! r0 ! j0 = NORMAL"
      and d: "\<forall>r<2. \<forall>j<kNumBlocksPerRow. (r, j) \<noteq> (r0, j0) \<longrightarrow> blockStates s ! r ! j = DEAD"
  proof (cases "Key_0 k")
    case True
    with UpdateGame_restart [OF assms(1)] show ?thesis by (simp add: U)
  next
    case False
    let ?n = "strikeCount r0 j0 (if Key_Space k then ShootMarble s else s)"
    have a: "blockStates (UpdateGame k s) ! r0 ! j0 = DEAD \<longleftrightarrow> 2 \<le> ?n"
      using False r0 j0 n
      by (simp add: UpdateGame_blockStates [OF assms(1)] nextState_funpow)
    have b: "blockStates (UpdateGame k s) ! r ! j = DEAD"
      if "r < 2" "j < kNumBlocksPerRow" "(r, j) \<noteq> (r0, j0)" for r j
      using False that d
      by (simp add: UpdateGame_blockStates [OF assms(1)] nextState_funpow_DEAD)
    have "(\<forall>r<2. \<forall>j<kNumBlocksPerRow. blockStates (UpdateGame k s) ! r ! j = DEAD) \<longleftrightarrow>
        blockStates (UpdateGame k s) ! r0 ! j0 = DEAD"
      using b r0 j0 by (metis prod.inject)
    with a False ph show ?thesis
      unfolding U by simp
  qed
  from 1 2 3 show ?thesis by blast
qed

text \<open>
  Two marbles in range end the game, one does not; ten DEAD blocks end it unless the
  restart key was hit.
\<close>

theorem win_condition_witness:
  "currentState (Update noKeys twoMarblesInRange) = OVER \<and>
   currentState (Update noKeys oneMarbleInRange) = GAME \<and>
   currentState (Update noKeys allBlocksDead) = OVER \<and>
   currentState (Update restartKey allBlocksDead) = GAME"
proof -
  have g: "currentState twoMarblesInRange = GAME" "currentState oneMarbleInRange = GAME"
    "currentState allBlocksDead = GAME"
    by (simp_all add: state_defs)
  have c2: "strikeCount 0 2 twoMarblesInRange = 2"
    by (simp add: strikeCount_def strikes_def state_defs eval_defs)
  have c1: "strikeCount 0 2 oneMarbleInRange = 1"
    by (simp add: strikeCount_def strikes_def state_defs eval_defs)
  have b2: "blockStates twoMarblesInRange ! 0 ! 2 = NORMAL \<and>
      (\<forall>r<2. \<forall>j<kNumBlocksPerRow. (r, j) \<noteq> (0, 2) \<longrightarrow> blockStates twoMarblesInRange ! r ! j = DEAD)"
    by (simp add: state_defs kNumBlocksPerRow_def eval_nat_numeral All_less_Suc)
  have b1: "blockStates oneMarbleInRange ! 0 ! 2 = NORMAL \<and>
      (\<forall>r<2. \<forall>j<kNumBlocksPerRow. (r, j) \<noteq> (0, 2) \<longrightarrow> blockStates oneMarbleInRange ! r ! j = DEAD)"
    by (simp add: state_defs kNumBlocksPerRow_def eval_nat_numeral All_less_Suc)
  have b0: "\<forall>r<2. \<forall>j<kNumBlocksPerRow. blockStates allBlocksDead ! r ! j = DEAD"
    by (simp add: state_defs kNumBlocksPerRow_def eval_nat_numeral All_less_Suc)
  have 1: "currentState (Update noKeys twoMarblesInRange) = OVER"
    using win_condition [OF wf_states(1) g(1), of noKeys 0 2, THEN conjunct2, THEN conjunct2] c2 b2
    by (simp add: noKeys_def kNumBlocksPerRow_def)
  have 2: "currentState (Update noKeys oneMarbleInRange) = GAME"
    using win_condition [OF wf_states(2) g(2), of noKeys 0 2, THEN conjunct2, THEN conjunct2] c1 b1
    by (simp add: noKeys_def kNumBlocksPerRow_def)
  have 3: "currentState (Update noKeys allBlocksDead) = OVER"
    using win_condition [OF wf_states(3) g(3), of noKeys 0 0, THEN conjunct2, THEN conjunct1] b0
    by (simp add: noKeys_def)
  have 4: "currentState (Update restartKey allBlocksDead) = GAME"
    using win_condition [OF wf_states(3) g(3), of restartKey 0 0, THEN conjunct2, THEN conjunct1] b0
    by (simp add: restartKey_def)
  from 1 2 3 4 show ?thesis by simp
qed

text \<open>
  C2 as stated fails at two inputs. With nine blocks DEAD, the block \<open>(0, 2)\<close> NORMAL and
  two marbles at z = 8 and z = 8.5, both marbles hit the block in one frame and the phase
  becomes OVER. With all ten blocks DEAD and the restart key hit, the frame resets the
  blocks and the phase stays GAME.
\<close>

theorem win_condition_counterexample:
  "currentState twoMarblesInRange = GAME \<and>
   blockStates twoMarblesInRange =
     [[DEAD, DEAD, NORMAL, DEAD, DEAD], [DEAD, DEAD, DEAD, DEAD, DEAD]] \<and>
   currentState (Update noKeys twoMarblesInRange) = OVER \<and>
   currentState allBlocksDead = GAME \<and>
   blockStates allBlocksDead = [[DEAD, DEAD, DEAD, DEAD, DEAD], [DEAD, DEAD, DEAD, DEAD, DEAD]] \<and>
   currentState (Update restartKey allBlocksDead) = GAME"
proof -
  have "currentState (Update noKeys twoMarblesInRange) = OVER"
    by (simp add: state_defs eval_defs)
  moreover have "currentState (Update restartKey allBlocksDead) = GAME"
    using UpdateGame_restart [OF wf_states(3), of restartKey]
    by (simp add: Update_def allBlocksDead_def restartKey_def)
  ultimately show ?thesis
    by (simp add: state_defs)
qed

section \<open>Runs that agree on the game state\<close>

lemma same_iff:
  "same s s' \<longleftrightarrow>
     wf s \<and> wf s' \<and> map plainMarble (marbles s) = map plainMarble (marbles s') \<and>
     map (map plainModel) (blocks s) = map (map plainModel) (blocks s') \<and>
     blockStates s = blockStates s' \<and> currentState s = currentState s' \<and>
     running s = running s'"
  by (cases s; cases s') (auto simp: same_def observe_def)

lemma map_update_cong:
  assumes "map e xs = map e ys" and "\<And>x y. e x = e y \<Longrightarrow> e (f x) = e (f y)"
  shows "map e (xs[i := f (xs ! i)]) = map e (ys[i := f (ys ! i)])"
proof (cases "i < length ys")
  case True
  with assms(1) have "e (xs ! i) = e (ys ! i)" by (rule map_eq_nth)
  then have "e (f (xs ! i)) = e (f (ys ! i))" by (rule assms(2))
  with assms(1) show ?thesis by (simp add: map_update)
next
  case False
  moreover from assms(1) have "length xs = length ys" by (rule map_eq_imp_length_eq)
  ultimately show ?thesis using assms(1) by (simp add: list_update_beyond)
qed

lemma map_map_update_cong:
  assumes "map (map e) xss = map (map e) yss" and "\<And>x y. e x = e y \<Longrightarrow> e (f x) = e (f y)"
  shows "map (map e) (xss[r := (xss ! r)[j := f (xss ! r ! j)]]) =
     map (map e) (yss[r := (yss ! r)[j := f (yss ! r ! j)]])"
  using assms(1)
proof (rule map_update_cong [where f = "\<lambda>row. row[j := f (row ! j)]"])
  fix x y assume "map e x = map e y"
  then show "map e (x[j := f (x ! j)]) = map e (y[j := f (y ! j)])"
    using assms(2) by (rule map_update_cong)
qed

lemma same_marble_upd:
  assumes "same s s'" and "\<And>m m'. plainMarble m = plainMarble m' \<Longrightarrow> plainMarble (f m) = plainMarble (f m')"
  shows "same (marble_upd i f s) (marble_upd i f s')"
  using assms(1) map_update_cong [of plainMarble "marbles s" "marbles s'" f i, OF _ assms(2)]
  by (simp add: same_iff)

lemma same_block_upd:
  assumes "same s s'" and "\<And>b b'. plainModel b = plainModel b' \<Longrightarrow> plainModel (f b) = plainModel (f b')"
  shows "same (block_upd r j f s) (block_upd r j f s')"
  using assms(1) map_map_update_cong [of plainModel "blocks s" "blocks s'" f r j, OF _ assms(2)]
  by (simp add: same_iff)

lemma same_blockState_set:
  "same s s' \<Longrightarrow> same (blockState_set r j v s) (blockState_set r j v s')"
  by (simp add: same_iff)

lemma same_fold:
  assumes "same s s'" and "\<And>x s s'. x \<in> set xs \<Longrightarrow> same s s' \<Longrightarrow> same (f x s) (f x s')"
  shows "same (fold f xs s) (fold f xs s')"
  using assms by (induction xs arbitrary: s s') auto

lemma plainModel_eq:
  "plainModel b = plainModel b' \<longleftrightarrow>
     posX b = posX b' \<and> posY b = posY b' \<and> posZ b = posZ b' \<and> visible b = visible b'"
  by (cases b; cases b') (auto simp: plainModel_def)

lemma plainMarble_eq:
  "plainMarble m = plainMarble m' \<longleftrightarrow>
     active m = active m' \<and> plainModel (model m) = plainModel (model m')"
  by (cases m; cases m') (auto simp: plainMarble_def)

lemma same_marble:
  assumes "same s s'" and "i < kMaxMarbles"
  shows "plainMarble (marbles s ! i) = plainMarble (marbles s' ! i)"
proof -
  from assms have "map plainMarble (marbles s) = map plainMarble (marbles s')"
    and "i < length (marbles s')"
    by (simp_all add: same_iff wf_row_length)
  then show ?thesis by (rule map_eq_nth)
qed

lemma same_block:
  assumes "same s s'" and "r < 2" and "j < kNumBlocksPerRow"
  shows "plainModel (blocks s ! r ! j) = plainModel (blocks s' ! r ! j)"
proof -
  from assms have "map (map plainModel) (blocks s) = map (map plainModel) (blocks s')"
    and "r < length (blocks s')" and "j < length (blocks s' ! r)"
    by (simp_all add: same_iff wf_row_length)
  then show ?thesis by (rule map_map_eq_nth)
qed

lemma same_fields:
  "same s s' \<Longrightarrow> same (s\<lparr>currentState := p\<rparr>) (s'\<lparr>currentState := p\<rparr>)"
  "same s s' \<Longrightarrow> same (s\<lparr>gameOverText := g\<rparr>) (s'\<lparr>gameOverText := g'\<rparr>)"
  "same s s' \<Longrightarrow> same (s\<lparr>running := r\<rparr>) (s'\<lparr>running := r\<rparr>)"
  by (simp_all add: same_iff)

lemma same_RestartGame_marble:
  "same s s' \<Longrightarrow> same (RestartGame_marble i s) (RestartGame_marble i s')"
  unfolding RestartGame_marble_def Let_def
  by (intro same_marble_upd)
     (auto simp: plainMarble_eq plainModel_eq SetVisible_def SetPosition_def)

lemma same_RestartGame_block:
  "same s s' \<Longrightarrow> same (RestartGame_block r i s) (RestartGame_block r i s')"
  unfolding RestartGame_block_def Let_def
  by (intro same_blockState_set same_block_upd)
     (auto simp: plainModel_eq SetVisible_def SetPosition_def SetSkin_def)

lemma same_RestartGame:
  assumes "same s s'" shows "same (RestartGame s) (RestartGame s')"
  unfolding RestartGame_def Let_def
  by (intro same_fields same_fold assms same_RestartGame_marble same_RestartGame_block)

lemma same_active:
  "same s s' \<Longrightarrow> i < kMaxMarbles \<Longrightarrow> active (marbles s ! i) = active (marbles s' ! i)"
  using same_marble [of s s' i] by (simp add: plainMarble_eq)

lemma same_ShootMarble:
  assumes "same s s'" shows "same (ShootMarble s) (ShootMarble s')"
proof -
  have a: "same (marble_upd i activate s) (marble_upd i activate s')" for i
    using assms by (rule same_marble_upd) (auto simp: plainMarble_eq plainModel_eq activate_def)
  from assms a show ?thesis
    by (simp add: ShootMarble_unfold same_active kMaxMarbles_def)
qed

lemma same_hits:
  assumes "same s s'" and "i < kMaxMarbles" and "r < 2" and "j < kNumBlocksPerRow"
  shows "hits i r j s = hits i r j s'"
proof -
  from assms have "blockStates s = blockStates s'" by (simp add: same_iff)
  moreover have "CheckCollision (model (marbles s ! i)) (blocks s ! r ! j) 1 =
      CheckCollision (model (marbles s' ! i)) (blocks s' ! r ! j) 1"
    using same_marble [OF assms(1,2)] same_block [OF assms(1,3,4)]
    by (simp add: plainMarble_eq plainModel_eq CheckCollision_def GetX_def GetZ_def)
  ultimately show ?thesis by (simp add: hits_def)
qed

lemma plainModel_damage:
  "plainModel b = plainModel b' \<Longrightarrow> plainModel (damage c b) = plainModel (damage c b')"
  by (cases c) (auto simp: plainModel_eq SetSkin_def SetVisible_def)

lemma same_collideBlock:
  assumes "same s s'" and "i < kMaxMarbles" and "r < 2" and "j < kNumBlocksPerRow"
  shows "same (collideBlock i r j s) (collideBlock i r j s')"
proof -
  from assms have b: "blockStates s = blockStates s'" by (simp add: same_iff)
  have "same (blockState_set r j v (block_upd r j (damage c) (marble_upd i deactivate s)))
      (blockState_set r j v (block_upd r j (damage c) (marble_upd i deactivate s')))" for v c
    using assms(1)
    by (intro same_blockState_set same_block_upd same_marble_upd plainModel_damage)
       (auto simp: plainMarble_eq plainModel_eq deactivate_def SetVisible_def)
  with assms b same_hits [OF assms] show ?thesis
    by (simp add: collideBlock_alt)
qed

lemma same_collideBlocks:
  assumes "same s s'" and "i < kMaxMarbles"
  shows "same (collideBlocks i s) (collideBlocks i s')"
  unfolding collideBlocks_def
  by (intro same_fold assms(1) same_collideBlock) (use assms(2) in auto)

lemma same_updateMarble:
  assumes "same s s'" and "i < kMaxMarbles"
  shows "same (updateMarble i s) (updateMarble i s')"
proof -
  let ?mv = "\<lambda>m. m\<lparr>model := MoveZ kMarbleSpeed (model m)\<rparr>"
  have 1: "same (marble_upd i ?mv s) (marble_upd i ?mv s')"
    using assms(1) by (rule same_marble_upd) (auto simp: plainMarble_eq plainModel_eq MoveZ_def)
  have z: "GetZ (model (marbles (marble_upd i ?mv s) ! i)) =
      GetZ (model (marbles (marble_upd i ?mv s') ! i))"
    using same_marble [OF 1 assms(2)] by (simp add: plainMarble_eq plainModel_eq GetZ_def)
  have 2: "same (marble_upd i (\<lambda>m. m\<lparr>model := SetVisible False (model m)\<rparr>)
               (marble_upd i (\<lambda>m. m\<lparr>active := False\<rparr>) (marble_upd i ?mv s)))
      (marble_upd i (\<lambda>m. m\<lparr>model := SetVisible False (model m)\<rparr>)
               (marble_upd i (\<lambda>m. m\<lparr>active := False\<rparr>) (marble_upd i ?mv s')))"
    by (intro same_marble_upd assms(1))
       (auto simp: plainMarble_eq plainModel_eq SetVisible_def MoveZ_def)
  have 3: "same (collideBlocks i (marble_upd i ?mv s)) (collideBlocks i (marble_upd i ?mv s'))"
    using 1 assms(2) by (rule same_collideBlocks)
  from assms 2 3 show ?thesis
    unfolding updateMarble_def Let_def z
    by (simp add: same_active)
qed

lemma same_updateMarbles:
  assumes "same s s'" shows "same (updateMarbles s) (updateMarbles s')"
  unfolding updateMarbles_def
  by (intro same_fold assms same_updateMarble) auto

lemma same_allDead: "same s s' \<Longrightarrow> allDead s = allDead s'"
  by (simp add: allDead_iff same_iff)

lemma same_UpdateGame:
  assumes "same s s'" shows "same (UpdateGame k s) (UpdateGame k s')"
proof -
  let ?s1 = "if Key_Space k then ShootMarble s else s"
  let ?s1' = "if Key_Space k then ShootMarble s' else s'"
  have 1: "same ?s1 ?s1'" using assms by (simp add: same_ShootMarble)
  then have 2: "same (updateMarbles ?s1) (updateMarbles ?s1')" by (rule same_updateMarbles)
  let ?s3 = "if Key_0 k then RestartGame (updateMarbles ?s1) else updateMarbles ?s1"
  let ?s3' = "if Key_0 k then RestartGame (updateMarbles ?s1') else updateMarbles ?s1'"
  have 3: "same ?s3 ?s3'" using 2 by (simp add: same_RestartGame)
  then have "allDead ?s3 = allDead ?s3'" by (rule same_allDead)
  moreover have "same (?s3\<lparr>currentState := OVER, gameOverText := True\<rparr>)
      (?s3'\<lparr>currentState := OVER, gameOverText := True\<rparr>)"
    using 3 by (intro same_fields)
  ultimately show ?thesis
    using 3 unfolding UpdateGame_def Let_def by simp
qed

lemma same_Update:
  assumes "same s s'" shows "same (Update k s) (Update k s')"
proof -
  from assms have c: "currentState s' = currentState s" by (simp add: same_iff)
  show ?thesis
  proof (cases "currentState s")
    case MENU
    with c assms show ?thesis by (simp add: Update_def same_fields)
  next
    case GAME
    with c assms show ?thesis by (simp add: Update_def same_UpdateGame)
  next
    case OVER
    with c assms show ?thesis by (simp add: Update_def Let_def same_fields same_RestartGame)
  qed
qed

lemma same_main_loop:
  "same s s' \<Longrightarrow> map observe (main_loop ks s) = map observe (main_loop ks s')"
proof (induction ks arbitrary: s s')
  case Nil
  then show ?case by simp
next
  case (Cons k ks)
  from Cons.prems have r: "running s' = running s" by (simp add: same_iff)
  from Cons.prems have u: "same (Update k s) (Update k s')" by (rule same_Update)
  then have "observe (Update k s) = observe (Update k s')" by (simp add: same_def)
  with Cons.IH [OF u] r show ?case by (simp add: Let_def)
qed

section \<open>Determinism of a run\<close>

text \<open>
  C10. The game states a run goes through depend on the game state it starts from and
  on the key answers of its frames, and on nothing else: two runs of \<open>main\<close> on the same
  key answers, from states that agree on the game state (whatever their skins and
  game-over text), go through the same number of frames and agree on the game state after
  every frame. In particular two runs from the same state with the same key answers give
  the same states.
\<close>

theorem main_loop_deterministic:
  assumes "wf s" and "wf s'" and "observe s = observe s'"
  shows "map observe (main_loop ks s) = map observe (main_loop ks s')"
  using assms by (intro same_main_loop) (simp add: same_def)

text \<open>
  The scene after setup and the same scene with red blocks and the text shown go through
  the same game states.
\<close>

theorem main_loop_deterministic_witness:
  "redScene \<noteq> SetupScene \<and>
   map observe (main_loop [spaceKey, spaceKey, noKeys, restartKey] redScene) =
   map observe (main_loop [spaceKey, spaceKey, noKeys, restartKey] SetupScene)"
proof -
  have w: "wf redScene"
    by (simp add: wf_def redScene_def SetupScene_def kMaxMarbles_def kNumBlocksPerRow_def
          eval_nat_numeral)
  have o: "observe redScene = observe SetupScene"
    by (simp add: observe_def redScene_def SetupScene_def plainModel_def SetSkin_def
          CreateModel_def o_def)
  have "gameOverText redScene \<noteq> gameOverText SetupScene"
    by (simp add: redScene_def SetupScene_def)
  then have "redScene \<noteq> SetupScene" by auto
  then show ?thesis
    using main_loop_deterministic [OF w wf_SetupScene o, of "[spaceKey, spaceKey, noKeys, restartKey]"]
    by (rule conjI)
qed

section \<open>Where the marbles and blocks are\<close>

lemma onLane_iff:
  "onLane m \<longleftrightarrow>
     posX (model m) = 0 \<and> 2 * posZ (model m) \<in> \<int> \<and> 0 \<le> posZ (model m) \<and>
     posZ (model m) \<le> 61 / 2 \<and> (active m \<longrightarrow> posZ (model m) \<le> 30)"
  by (simp add: onLane_def frac_eq_0_iff)

lemma onLane_activate: "onLane (activate m)"
  by (simp add: onLane_iff activate_def)

lemma onLane_resetMarble: "onLane (resetMarble m)"
  by (simp add: onLane_iff resetMarble_def SetPosition_def SetVisible_def)

lemma onLane_deactivate: "onLane m \<Longrightarrow> onLane (deactivate m)"
  by (simp add: onLane_iff deactivate_def SetVisible_def)

lemma half_step: "2 * z \<in> \<int> \<Longrightarrow> 2 * (z + 1 / 2) \<in> \<int>" for z :: real
proof -
  assume "2 * z \<in> \<int>"
  then have "2 * z + 1 \<in> \<int>" by (intro Ints_add) simp_all
  then show ?thesis by (simp add: distrib_left)
qed

lemma onLane_move:
  "onLane m \<Longrightarrow> \<not> 30 < posZ (model m) + kMarbleSpeed \<Longrightarrow> onLane (move m)"
  using half_step [of "posZ (model m)"] by (simp add: onLane_iff kMarbleSpeed_def)

lemma onLane_move_out: "onLane m \<Longrightarrow> active m \<Longrightarrow> onLane (deactivate (move m))"
  using half_step [of "posZ (model m)"]
  by (simp add: onLane_iff kMarbleSpeed_def deactivate_def SetVisible_def)

lemma inPlace_fields [simp]:
  "inPlace (s\<lparr>currentState := p\<rparr>) = inPlace s"
  "inPlace (s\<lparr>gameOverText := g\<rparr>) = inPlace s"
  "inPlace (s\<lparr>running := r\<rparr>) = inPlace s"
  by (simp_all add: inPlace_def geom_def)

lemma inPlace_SetupScene: "inPlace SetupScene"
  by (simp add: inPlace_def SetupScene_def kMaxMarbles_def upt_3 onLane_iff SetVisible_def
        CreateModel_def)

lemma inPlace_ShootMarble: "inPlace s \<Longrightarrow> inPlace (ShootMarble s)"
  by (simp add: ShootMarble_unfold inPlace_def marble_upd_def list_all_update onLane_activate
        geom_def)

lemma inPlace_updateMarble:
  assumes w: "wf s" and i: "i < kMaxMarbles" and p: "inPlace s"
  shows "inPlace (updateMarble i s)"
proof -
  from w i have l: "i < length (marbles s)"
    by (simp add: wf_row_length)
  from p have all: "list_all onLane (marbles s)" and g: "snd (geom s) = snd (geom SetupScene)"
    by (simp_all add: inPlace_def)
  from all l have m: "onLane (marbles s ! i)"
    by (simp add: list_all_length)
  have g': "snd (geom (updateMarble i s)) = snd (geom SetupScene)"
    using updateMarble_geom [OF w i] g by simp
  have "list_all onLane (marbles (updateMarble i s))"
  proof (cases "active (marbles s ! i)")
    case False
    with w i all show ?thesis by (simp add: updateMarble_alt)
  next
    case a: True
    show ?thesis
    proof (cases "30 < posZ (model (marbles s ! i)) + kMarbleSpeed")
      case True
      with a w i all m show ?thesis
        by (simp add: updateMarble_alt marble_upd_def list_all_update onLane_move_out)
    next
      case False
      define t where "t = marble_upd i move s"
      have 1: "list_all onLane (marbles t)"
        using all m False by (simp add: t_def marble_upd_def list_all_update onLane_move)
      have 2: "onLane (marbles t ! i)"
        using l m False by (simp add: t_def marble_upd_def onLane_move)
      from a False w i have u: "updateMarble i s = collideBlocks i t"
        by (simp add: updateMarble_alt t_def)
      from collideBlocks_marbles_cases [of i t]
      show ?thesis
        unfolding u
      proof
        assume "marbles (collideBlocks i t) = marbles t"
        with 1 show "list_all onLane (marbles (collideBlocks i t))" by simp
      next
        assume "marbles (collideBlocks i t) = (marbles t)[i := deactivate (marbles t ! i)]"
        with list_all_update [OF 1 onLane_deactivate [OF 2]]
        show "list_all onLane (marbles (collideBlocks i t))" by simp
      qed
    qed
  qed
  with g' show ?thesis by (simp add: inPlace_def)
qed

lemma inPlace_updateMarbles: "wf s \<Longrightarrow> inPlace s \<Longrightarrow> inPlace (updateMarbles s)"
  by (simp add: updateMarbles_unfold inPlace_updateMarble wf_updateMarble kMaxMarbles_def)

lemma inPlace_RestartGame:
  assumes "wf s" shows "inPlace (RestartGame s)"
proof -
  from assms obtain m0 m1 m2 a0 a1 a2 a3 a4 b0 b1 b2 b3 b4 c0 c1 c2 c3 c4 d0 d1 d2 d3 d4
    where m: "marbles s = [m0, m1, m2]"
      and b: "blocks s = [[a0, a1, a2, a3, a4], [b0, b1, b2, b3, b4]]"
      and c: "blockStates s = [[c0, c1, c2, c3, c4], [d0, d1, d2, d3, d4]]"
    by (rule wf_explicit)
  note 1 = RestartGame_explicit [OF m b c]
  show ?thesis
    by (simp add: 1 inPlace_def onLane_resetMarble geom_def resetBlock_def SetVisible_def
          SetSkin_def SetPosition_def SetupScene_def CreateModel_def kNumBlocksPerRow_def
          upt_2 upt_5)
qed

lemma inPlace_UpdateGame: "wf s \<Longrightarrow> inPlace s \<Longrightarrow> inPlace (UpdateGame k s)"
  by (simp add: UpdateGame_def Let_def inPlace_ShootMarble inPlace_updateMarbles
        inPlace_RestartGame wf_ShootMarble wf_updateMarbles)

lemma inPlace_Update: "wf s \<Longrightarrow> inPlace s \<Longrightarrow> inPlace (Update k s)"
  by (cases "currentState s"; simp add: Update_def Let_def inPlace_UpdateGame inPlace_RestartGame)

lemma reachable_inPlace: "reachable s \<Longrightarrow> inPlace s"
  by (induction rule: reachable.induct)
     (simp_all add: inPlace_SetupScene inPlace_Update reachable_wf)

lemma inPlace_grid:
  assumes p: "inPlace s" and w: "wf s"
    and i: "i < kMaxMarbles" and r: "r < 2" and k: "k < kNumBlocksPerRow"
  shows "onGrid 1 (posX (MoveZ kMarbleSpeed (model (marbles s ! i))))"
    and "onGrid 1 (posZ (MoveZ kMarbleSpeed (model (marbles s ! i))))"
    and "onGrid 1 (posX (blocks s ! r ! k))"
    and "onGrid 1 (posZ (blocks s ! r ! k))"
proof -
  from w i have l: "i < length (marbles s)"
    by (simp add: wf_row_length)
  with p have m: "onLane (marbles s ! i)"
    by (simp add: inPlace_def list_all_length)
  from m show "onGrid 1 (posX (MoveZ kMarbleSpeed (model (marbles s ! i))))"
    by (simp add: onLane_iff onGrid_iff)
  from m half_step [of "posZ (model (marbles s ! i))"]
  show "onGrid 1 (posZ (MoveZ kMarbleSpeed (model (marbles s ! i))))"
    by (simp add: onLane_iff onGrid_iff kMarbleSpeed_def)
  from p have g: "snd (geom s) = snd (geom SetupScene)"
    by (simp add: inPlace_def)
  have x: "posX (blocks s ! r ! k) = real k * 2 - 5"
    using block_pos_geom(1) [OF g wf_SetupScene r k] r k
    by (simp add: SetupScene_def CreateModel_def kNumBlocksPerRow_def kBlockWidth_def)
  have z: "posZ (blocks s ! r ! k) = real r * 5 + 10"
    using block_pos_geom(2) [OF g wf_SetupScene r k] r k
    by (simp add: SetupScene_def CreateModel_def kNumBlocksPerRow_def kBlockWidth_def)
  have "2 * (real k * 2 - 5) \<in> \<int>"
    by (intro Ints_mult Ints_diff) simp_all
  moreover have "\<bar>real k * 2 - 5\<bar> \<le> 256"
    using k by (simp add: kNumBlocksPerRow_def abs_le_iff)
  ultimately show "onGrid 1 (posX (blocks s ! r ! k))"
    by (simp add: x onGrid_iff)
  have "2 * (real r * 5 + 10) \<in> \<int>"
    by (intro Ints_mult Ints_add) simp_all
  moreover have "\<bar>real r * 5 + 10\<bar> \<le> 256"
    using r by (simp add: abs_le_iff)
  ultimately show "onGrid 1 (posZ (blocks s ! r ! k))"
    by (simp add: z onGrid_iff)
qed

section \<open>The collision test\<close>

text \<open>
  C3 (amended). \<open>CheckCollision\<close> computes the two differences, their squares and the
  sum in single precision. When the x and z coordinates of both models are of the form
  \<open>n / 2 ^ e\<close> for one \<open>e\<close> up to 74, with integers \<open>n\<close> of magnitude at most 512, no
  operation rounds: with the default radius 1 the test answers true exactly when the
  squared distance of the two centres in the x-z plane is strictly below \<open>(2 * radius)\<^sup>2\<close>,
  that is when their horizontal distance is strictly below \<open>2 * radius\<close>; the height
  plays no part. The game stays on such a grid, the one of \<open>e = 1\<close>: in every reachable
  state, also right after a shot in it, a marble moved by \<open>kMarbleSpeed\<close> and every block
  have coordinates that are multiples of 0.5 of magnitude at most 256, and the test of the
  moved marble against the block is the exact comparison.
\<close>

theorem CheckCollision_strict_on_grid:
  "(e \<le> 74 \<and> onGrid e (posX m1) \<and> onGrid e (posZ m1) \<and>
    onGrid e (posX m2) \<and> onGrid e (posZ m2) \<longrightarrow>
      (CheckCollision m1 m2 1 \<longleftrightarrow>
         (posX m1 - posX m2)\<^sup>2 + (posZ m1 - posZ m2)\<^sup>2 < (2 * 1)\<^sup>2) \<and>
      (CheckCollision m1 m2 1 \<longleftrightarrow>
         sqrt ((posX m1 - posX m2)\<^sup>2 + (posZ m1 - posZ m2)\<^sup>2) < 2 * 1)) \<and>
   (reachable s \<and> (s' = s \<or> s' = ShootMarble s) \<and>
    i < kMaxMarbles \<and> r < 2 \<and> k < kNumBlocksPerRow \<longrightarrow>
      (let m = MoveZ kMarbleSpeed (model (marbles s' ! i)); b = blocks s' ! r ! k
       in onGrid 1 (posX m) \<and> onGrid 1 (posZ m) \<and> onGrid 1 (posX b) \<and> onGrid 1 (posZ b) \<and>
          (CheckCollision m b 1 \<longleftrightarrow>
             (posX m - posX b)\<^sup>2 + (posZ m - posZ b)\<^sup>2 < (2 * 1)\<^sup>2)))"
proof (intro conjI impI)
  assume a: "e \<le> 74 \<and> onGrid e (posX m1) \<and> onGrid e (posZ m1) \<and>
    onGrid e (posX m2) \<and> onGrid e (posZ m2)"
  then have c: "CheckCollision m1 m2 1 \<longleftrightarrow>
      (posX m1 - posX m2) * (posX m1 - posX m2) + (posZ m1 - posZ m2) * (posZ m1 - posZ m2) < 4"
    by (intro CheckCollision_on_grid [of e]) simp_all
  then show "CheckCollision m1 m2 1 \<longleftrightarrow>
      (posX m1 - posX m2)\<^sup>2 + (posZ m1 - posZ m2)\<^sup>2 < (2 * 1)\<^sup>2"
    by (simp add: power2_eq_square)
  from c show "CheckCollision m1 m2 1 \<longleftrightarrow>
      sqrt ((posX m1 - posX m2)\<^sup>2 + (posZ m1 - posZ m2)\<^sup>2) < 2 * 1"
    by (simp add: power2_eq_square sqrt_lt_2)
next
  assume a: "reachable s \<and> (s' = s \<or> s' = ShootMarble s) \<and>
    i < kMaxMarbles \<and> r < 2 \<and> k < kNumBlocksPerRow"
  then have "inPlace s'" and "wf s'"
    by (auto simp: reachable_inPlace inPlace_ShootMarble reachable_wf wf_ShootMarble)
  from inPlace_grid [OF this, of i r k] a
  have g: "onGrid 1 (posX (MoveZ kMarbleSpeed (model (marbles s' ! i))))"
    "onGrid 1 (posZ (MoveZ kMarbleSpeed (model (marbles s' ! i))))"
    "onGrid 1 (posX (blocks s' ! r ! k))"
    "onGrid 1 (posZ (blocks s' ! r ! k))"
    by simp_all
  from CheckCollision_half_grid [OF g] g
  show "let m = MoveZ kMarbleSpeed (model (marbles s' ! i)); b = blocks s' ! r ! k
       in onGrid 1 (posX m) \<and> onGrid 1 (posZ m) \<and> onGrid 1 (posX b) \<and> onGrid 1 (posZ b) \<and>
          (CheckCollision m b 1 \<longleftrightarrow>
             (posX m - posX b)\<^sup>2 + (posZ m - posZ b)\<^sup>2 < (2 * 1)\<^sup>2)"
    by (simp add: Let_def power2_eq_square)
qed

text \<open>
  Two models at distance exactly 2 do not collide, two models at distance 511 / 256 do;
  the marble shot in the scene after setup and moved to z = 0.5 is out of range of the
  block \<open>(0, 2)\<close>.
\<close>

theorem CheckCollision_strict_on_grid_witness:
  "onGrid 1 0 \<and> onGrid 1 2 \<and>
   \<not> CheckCollision (CreateModel 0 0 0) (CreateModel 2 7 0) 1 \<and>
   onGrid 8 0 \<and> onGrid 8 (511 / 256) \<and>
   CheckCollision (CreateModel 0 0 0) (CreateModel (511 / 256) 7 0) 1 \<and>
   reachable SetupScene \<and>
   \<not> CheckCollision (MoveZ kMarbleSpeed (model (marbles (ShootMarble SetupScene) ! 0)))
       (blocks (ShootMarble SetupScene) ! 0 ! 2) 1"
proof -
  have g: "onGrid 1 0" "onGrid 1 2" "onGrid 8 0" "onGrid 8 (511 / 256)"
    by (simp_all add: onGrid_iff)
  have 1: "\<not> CheckCollision (CreateModel 0 0 0) (CreateModel 2 7 0) 1"
    using CheckCollision_strict_on_grid
      [of 1 "CreateModel 0 0 0" "CreateModel 2 7 0" SetupScene SetupScene 0 0 0, THEN conjunct1] g
    by (simp add: CreateModel_def)
  have 2: "CheckCollision (CreateModel 0 0 0) (CreateModel (511 / 256) 7 0) 1"
    using CheckCollision_strict_on_grid
      [of 8 "CreateModel 0 0 0" "CreateModel (511 / 256) 7 0" SetupScene SetupScene 0 0 0,
       THEN conjunct1] g
    by (simp add: CreateModel_def power2_eq_square)
  have 3: "\<not> CheckCollision (MoveZ kMarbleSpeed (model (marbles (ShootMarble SetupScene) ! 0)))
       (blocks (ShootMarble SetupScene) ! 0 ! 2) 1"
    using CheckCollision_strict_on_grid
      [of 1 "CreateModel 0 0 0" "CreateModel 2 7 0" SetupScene "ShootMarble SetupScene" 0 0 2,
       THEN conjunct2] reachable.reach_setup
    by (simp add: Let_def kMaxMarbles_def kNumBlocksPerRow_def ShootMarble_unfold SetupScene_def
          upt_2 upt_3 upt_5 marble_upd_def activate_def CreateModel_def SetVisible_def
          kMarbleSpeed_def kBlockWidth_def power2_eq_square)
  from g 1 2 3 reachable.reach_setup show ?thesis by simp
qed

text \<open>
  C3 as stated, for every pair of models, fails on either side of the threshold. The
  models at (0, 0) and (1, 14529495 / 8388608) in the x-z plane have float coordinates and
  a squared distance below 4; the square of the z difference rounds up to 3, the sum is 4
  and the test answers false. The models at (4507369 / 33554432, 14871561 / 8388608) and
  (-14233237 / 67108864, -3304127 / 16777216) have float coordinates and a squared distance
  above 4; both differences round down, the sum is the float below 4 and the test answers
  true.
\<close>

theorem CheckCollision_rounding:
  "fl (14529495 / 8388608) = Finite (14529495 / 8388608) \<and>
   (posX (CreateModel 0 0 0) - posX (CreateModel 1 0 (14529495 / 8388608)))\<^sup>2 +
     (posZ (CreateModel 0 0 0) - posZ (CreateModel 1 0 (14529495 / 8388608)))\<^sup>2 < (2 * 1)\<^sup>2 \<and>
   \<not> CheckCollision (CreateModel 0 0 0) (CreateModel 1 0 (14529495 / 8388608)) 1 \<and>
   fl (4507369 / 33554432) = Finite (4507369 / 33554432) \<and>
   fl (14871561 / 8388608) = Finite (14871561 / 8388608) \<and>
   fl (- (14233237 / 67108864)) = Finite (- (14233237 / 67108864)) \<and>
   fl (- (3304127 / 16777216)) = Finite (- (3304127 / 16777216)) \<and>
   (2 * 1)\<^sup>2 <
     (posX (CreateModel (4507369 / 33554432) 0 (14871561 / 8388608)) -
      posX (CreateModel (- (14233237 / 67108864)) 0 (- (3304127 / 16777216))))\<^sup>2 +
     (posZ (CreateModel (4507369 / 33554432) 0 (14871561 / 8388608)) -
      posZ (CreateModel (- (14233237 / 67108864)) 0 (- (3304127 / 16777216))))\<^sup>2 \<and>
   CheckCollision (CreateModel (4507369 / 33554432) 0 (14871561 / 8388608))
     (CreateModel (- (14233237 / 67108864)) 0 (- (3304127 / 16777216))) 1"
proof -
  have 1: "(posX (CreateModel 0 0 0) - posX (CreateModel 1 0 (14529495 / 8388608)))\<^sup>2 +
     (posZ (CreateModel 0 0 0) - posZ (CreateModel 1 0 (14529495 / 8388608)))\<^sup>2 < (2 * 1)\<^sup>2"
    by (simp add: CreateModel_def power2_eq_square)
  have 2: "(2 * 1)\<^sup>2 <
     (posX (CreateModel (4507369 / 33554432) 0 (14871561 / 8388608)) -
      posX (CreateModel (- (14233237 / 67108864)) 0 (- (3304127 / 16777216))))\<^sup>2 +
     (posZ (CreateModel (4507369 / 33554432) 0 (14871561 / 8388608)) -
      posZ (CreateModel (- (14233237 / 67108864)) 0 (- (3304127 / 16777216))))\<^sup>2"
    by (simp add: CreateModel_def power2_eq_square)
  from 1 2 coordinates_are_floats CheckCollision_sum_rounds_up CheckCollision_differences_round_down show ?thesis
    by (intro conjI)
qed

end
